theory Spec2Isabelle
  imports Complex_Main "HOL-Library.AList" "HOL-Library.Log_Nat"
begin

section \<open>JavaScript numbers\<close>

text \<open>
  A JavaScript number is modelled as a rational, one of the two infinities, or NaN.
  The arithmetic of this section follows IEEE 754 on the special values (NaN is
  contagious, \<open>0/0\<close> and \<open>\<infinity> - \<infinity>\<close> are NaN, every comparison with NaN is false) and
  is exact on finite values: it stands for the doubles where the values met are exact
  in doubles or a statement does not depend on them.  Comparison, negation and
  absolute value are exact on doubles as well.  The sign of zero is not modelled.
  Where rounding and overflow decide, the operations of the section on double
  precision below are used.
\<close>

datatype jsnum = Fin rat | PInf | NInf | NaN

fun js_neg :: "jsnum \<Rightarrow> jsnum" where
  "js_neg (Fin q) = Fin (- q)"
| "js_neg PInf = NInf"
| "js_neg NInf = PInf"
| "js_neg NaN = NaN"

fun js_add :: "jsnum \<Rightarrow> jsnum \<Rightarrow> jsnum" where
  "js_add NaN _ = NaN"
| "js_add _ NaN = NaN"
| "js_add (Fin a) (Fin b) = Fin (a + b)"
| "js_add PInf NInf = NaN"
| "js_add NInf PInf = NaN"
| "js_add PInf _ = PInf"
| "js_add _ PInf = PInf"
| "js_add NInf _ = NInf"
| "js_add _ NInf = NInf"

definition js_sub :: "jsnum \<Rightarrow> jsnum \<Rightarrow> jsnum" where
  "js_sub a b = js_add a (js_neg b)"

fun js_div :: "jsnum \<Rightarrow> jsnum \<Rightarrow> jsnum" where
  "js_div NaN _ = NaN"
| "js_div _ NaN = NaN"
| "js_div (Fin a) (Fin b) =
     (if b \<noteq> 0 then Fin (a / b)
      else if a = 0 then NaN
      else if 0 < a then PInf else NInf)"
| "js_div (Fin a) PInf = Fin 0"
| "js_div (Fin a) NInf = Fin 0"
| "js_div PInf (Fin b) = (if b < 0 then NInf else PInf)"
| "js_div NInf (Fin b) = (if b < 0 then PInf else NInf)"
| "js_div PInf PInf = NaN"
| "js_div PInf NInf = NaN"
| "js_div NInf PInf = NaN"
| "js_div NInf NInf = NaN"

text \<open>\<open>Math.abs\<close>.\<close>

fun js_abs :: "jsnum \<Rightarrow> jsnum" where
  "js_abs (Fin q) = Fin \<bar>q\<bar>"
| "js_abs PInf = PInf"
| "js_abs NInf = PInf"
| "js_abs NaN = NaN"

text \<open>The comparisons \<open>a > b\<close> and \<open>a >= b\<close>.\<close>

fun js_gt :: "jsnum \<Rightarrow> jsnum \<Rightarrow> bool" where
  "js_gt NaN _ = False"
| "js_gt _ NaN = False"
| "js_gt (Fin a) (Fin b) = (b < a)"
| "js_gt (Fin a) PInf = False"
| "js_gt (Fin a) NInf = True"
| "js_gt PInf PInf = False"
| "js_gt PInf _ = True"
| "js_gt NInf _ = False"

fun js_ge :: "jsnum \<Rightarrow> jsnum \<Rightarrow> bool" where
  "js_ge NaN _ = False"
| "js_ge _ NaN = False"
| "js_ge a b = (a = b \<or> js_gt a b)"

text \<open>The global \<open>isNaN\<close> on a number.\<close>

fun isNaN :: "jsnum \<Rightarrow> bool" where
  "isNaN NaN = True"
| "isNaN _ = False"

fun is_finite :: "jsnum \<Rightarrow> bool" where
  "is_finite (Fin _) = True"
| "is_finite _ = False"

text \<open>
  Reading \<open>xs[i]\<close>: \<open>undefined\<close> outside the array, which is \<open>None\<close> here.  Where the
  value read enters arithmetic, \<open>undefined\<close> converts to NaN.
\<close>

definition js_index :: "'a list \<Rightarrow> int \<Rightarrow> 'a option" where
  "js_index xs i = (if 0 \<le> i \<and> i < int (length xs) then Some (xs ! nat i) else None)"

definition to_number :: "jsnum option \<Rightarrow> jsnum" where
  "to_number v = (case v of None \<Rightarrow> NaN | Some x \<Rightarrow> x)"

text \<open>
  \<open>Array.prototype.slice(start, end)\<close> on integer arguments: a negative argument counts
  from the end of the array, both are clamped to the array.
\<close>

definition js_slice :: "'a list \<Rightarrow> int \<Rightarrow> int \<Rightarrow> 'a list" where
  "js_slice xs start end' =
     (let len = int (length xs);
          k = (if start < 0 then max (len + start) 0 else min start len);
          fin = (if end' < 0 then max (len + end') 0 else min end' len)
      in take (nat (fin - k)) (drop (nat k) xs))"

section \<open>Statistics and curve utilities\<close>

text \<open>\<open>mean\<close>: \<open>arr.reduce((sum, val) => sum + val, 0) / arr.length\<close>.\<close>

definition mean :: "jsnum list \<Rightarrow> jsnum" where
  "mean arr = js_div (foldl js_add (Fin 0) arr) (Fin (of_nat (length arr)))"

text \<open>\<open>movingAverage\<close>: the loop over \<open>i\<close> is a map over the indices.\<close>

definition movingAverage :: "jsnum list \<Rightarrow> int \<Rightarrow> jsnum list" where
  "movingAverage arr windowSize =
     (let halfWindow = windowSize div 2 in
      map (\<lambda>i. let start = max 0 (int i - halfWindow);
                    end' = min (int (length arr)) (int i + halfWindow + 1)
                in mean (js_slice arr start end'))
          [0 ..< length arr])"

text \<open>\<open>calculateDerivative\<close>: forward, backward and central differences.\<close>

definition num_at :: "jsnum list \<Rightarrow> int \<Rightarrow> jsnum" where
  "num_at xs i = to_number (js_index xs i)"

definition calculateDerivative :: "jsnum list \<Rightarrow> jsnum list \<Rightarrow> jsnum list" where
  "calculateDerivative xValues yValues =
     map (\<lambda>n. let i = int n in
            if i = 0 then
              js_div (js_sub (num_at yValues 1) (num_at yValues 0))
                     (js_sub (num_at xValues 1) (num_at xValues 0))
            else if i = int (length xValues) - 1 then
              js_div (js_sub (num_at yValues i) (num_at yValues (i - 1)))
                     (js_sub (num_at xValues i) (num_at xValues (i - 1)))
            else
              js_div (js_sub (num_at yValues (i + 1)) (num_at yValues (i - 1)))
                     (js_sub (num_at xValues (i + 1)) (num_at xValues (i - 1))))
         [0 ..< length xValues]"

text \<open>
  \<open>normalizeArray\<close>.  The function mapped over the array is named \<open>normalize_value\<close>
  here; in the source it is the arrow function \<open>val => (val - postMeltAvg) /
  (preMeltAvg - postMeltAvg)\<close>.
\<close>

definition normalize_value :: "jsnum \<Rightarrow> jsnum \<Rightarrow> jsnum \<Rightarrow> jsnum" where
  "normalize_value preMeltAvg postMeltAvg val =
     js_div (js_sub val postMeltAvg) (js_sub preMeltAvg postMeltAvg)"

definition normalizeArray :: "jsnum list \<Rightarrow> int \<Rightarrow> int \<Rightarrow> int \<Rightarrow> int \<Rightarrow> jsnum list" where
  "normalizeArray arr preStart preEnd postStart postEnd =
     (let preMeltValues = js_slice arr preStart preEnd;
          postMeltValues = js_slice arr postStart postEnd;
          preMeltAvg = mean preMeltValues;
          postMeltAvg = mean postMeltValues
      in map (normalize_value preMeltAvg postMeltAvg) arr)"

section \<open>Double-precision arithmetic\<close>

text \<open>
  IEEE 754 binary64: a finite double is an integer multiple of \<open>2\<^sup>-\<^sup>1\<^sup>0\<^sup>7\<^sup>4\<close> with a
  significand of at most 53 bits, below \<open>2\<^sup>1\<^sup>0\<^sup>2\<^sup>4\<close> in absolute value.
\<close>

definition subnormal_bits :: nat where
  "subnormal_bits = 1074"

definition overflow_bits :: nat where
  "overflow_bits = 1024"

text \<open>Rounding to the nearest integer, a tie going to the even one.\<close>

definition round_half_even :: "rat \<Rightarrow> int" where
  "round_half_even x =
     (let f = \<lfloor>x\<rfloor>; d = x - of_int f
      in if d < 1 / 2 then f else if 1 / 2 < d then f + 1 else if even f then f else f + 1)"

text \<open>
  The double nearest to an exact result, ties to even.  \<open>t\<close> is the absolute value in
  units of the smallest subnormal; \<open>s\<close> is the number of low bits that do not fit in
  a significand of 53 bits (none for a subnormal result); \<open>m\<close> is the rounded
  significand.  A result that rounds to \<open>2\<^sup>1\<^sup>0\<^sup>2\<^sup>4\<close> or beyond is an infinity.
\<close>

definition round_double :: "rat \<Rightarrow> jsnum" where
  "round_double q =
     (let t = \<bar>q\<bar> * 2 ^ subnormal_bits;
          s = nat (bitlen \<lfloor>t\<rfloor> - 53);
          m = round_half_even (t / 2 ^ s);
          r = of_int m * 2 ^ s / 2 ^ subnormal_bits
      in if 2 ^ overflow_bits \<le> r then (if 0 < q then PInf else NInf)
         else Fin (sgn q * r))"

text \<open>
  \<open>a + b\<close>, \<open>a - b\<close> and \<open>a / b\<close> on doubles: the exact result rounded; on the special
  values, and for a division by zero, as in the section above.
\<close>

fun dbl_add :: "jsnum \<Rightarrow> jsnum \<Rightarrow> jsnum" where
  "dbl_add (Fin a) (Fin b) = round_double (a + b)"
| "dbl_add a b = js_add a b"

definition dbl_sub :: "jsnum \<Rightarrow> jsnum \<Rightarrow> jsnum" where
  "dbl_sub a b = dbl_add a (js_neg b)"

fun dbl_div :: "jsnum \<Rightarrow> jsnum \<Rightarrow> jsnum" where
  "dbl_div (Fin a) (Fin b) =
     (if b \<noteq> 0 then round_double (a / b) else js_div (Fin a) (Fin b))"
| "dbl_div a b = js_div a b"

text \<open>\<open>mean\<close> and \<open>normalizeArray\<close> on doubles.\<close>

definition mean_double :: "jsnum list \<Rightarrow> jsnum" where
  "mean_double arr = dbl_div (foldl dbl_add (Fin 0) arr) (Fin (of_nat (length arr)))"

definition normalize_value_double :: "jsnum \<Rightarrow> jsnum \<Rightarrow> jsnum \<Rightarrow> jsnum" where
  "normalize_value_double preMeltAvg postMeltAvg val =
     dbl_div (dbl_sub val postMeltAvg) (dbl_sub preMeltAvg postMeltAvg)"

definition normalizeArray_double ::
  "jsnum list \<Rightarrow> int \<Rightarrow> int \<Rightarrow> int \<Rightarrow> int \<Rightarrow> jsnum list" where
  "normalizeArray_double arr preStart preEnd postStart postEnd =
     (let preMeltValues = js_slice arr preStart preEnd;
          postMeltValues = js_slice arr postStart postEnd;
          preMeltAvg = mean_double preMeltValues;
          postMeltAvg = mean_double postMeltValues
      in map (normalize_value_double preMeltAvg postMeltAvg) arr)"

section \<open>Region and Tm detection\<close>

text \<open>
  \<open>detectMeltRegions\<close>.  The literals \<open>0.1\<close> and \<open>0.9\<close> are the exact fractions here.
  The doubles nearest to them are slightly larger than \<open>1/10\<close> and \<open>9/10\<close>, and for
  every array length the floor of the rounded product is the floor of the exact one
  (see \<open>floor_tenths_stable\<close> below).
\<close>

record regions =
  preStart :: int
  preEnd :: int
  postStart :: int
  postEnd :: int

definition detectMeltRegions :: "jsnum list \<Rightarrow> jsnum list \<Rightarrow> regions" where
  "detectMeltRegions temperatures fluorescence =
     \<lparr> preStart = 0,
       preEnd = \<lfloor>(of_nat (length temperatures) :: rat) * (1 / 10)\<rfloor>,
       postStart = \<lfloor>(of_nat (length temperatures) :: rat) * (9 / 10)\<rfloor>,
       postEnd = int (length temperatures) \<rparr>"

text \<open>
  \<open>findTm\<close>.  \<open>findTm_scan i ds maxDerivIdx maxDeriv\<close> is the loop from index \<open>i\<close>
  on, \<open>ds\<close> being the elements not yet visited; it returns the final \<open>maxDerivIdx\<close>.
\<close>

fun findTm_scan :: "nat \<Rightarrow> jsnum list \<Rightarrow> nat \<Rightarrow> jsnum \<Rightarrow> nat" where
  "findTm_scan i [] maxDerivIdx maxDeriv = maxDerivIdx"
| "findTm_scan i (d # ds) maxDerivIdx maxDeriv =
     (if js_gt (js_abs d) (js_abs maxDeriv)
      then findTm_scan (Suc i) ds i d
      else findTm_scan (Suc i) ds maxDerivIdx maxDeriv)"

definition findTm_index :: "jsnum list \<Rightarrow> nat" where
  "findTm_index derivative = findTm_scan 1 (drop 1 derivative) 0 (num_at derivative 0)"

definition findTm :: "jsnum list \<Rightarrow> jsnum list \<Rightarrow> jsnum option" where
  "findTm temperatures derivative = js_index temperatures (int (findTm_index derivative))"

section \<open>Parsed tables\<close>

text \<open>
  A parsed table (\<open>rawData\<close>) has the header list, the name of the temperature column
  and one object per row.  The analysis reads a cell only through \<open>parseFloat\<close>, so a
  cell is modelled by what \<open>parseFloat\<close> makes of it: \<open>Number x\<close> for a cell on which
  \<open>parseFloat\<close> returns \<open>x\<close> (a number, or text with a numeric prefix; \<open>Number NaN\<close> for
  any other text) and \<open>Null\<close> for \<open>null\<close>.  A row object is an association list, and
  a key it lacks reads as \<open>undefined\<close>.
\<close>

datatype cell = Number jsnum | Null

type_synonym row = "(string \<times> cell) list"

definition parseFloat :: "cell option \<Rightarrow> jsnum" where
  "parseFloat v = (case v of Some (Number x) \<Rightarrow> x | Some Null \<Rightarrow> NaN | None \<Rightarrow> NaN)"

record parsed_data =
  filename :: string
  headers :: "string list"
  tempHeader :: string
  data :: "row list"
  sampleCount :: nat

section \<open>The archive parser's table builder\<close>

record eds_sample =
  wellNumber :: nat
  sampleName :: string
  detector :: string
  task :: string
  tmValues :: string
  sampleTemperatures :: "jsnum list"
  rnValues :: "jsnum list"
  deltaRnTemperatures :: "jsnum list"
  deltaRnValues :: "jsnum list"

text \<open>
  The field \<open>temperatures\<close> of a parsed sample is \<open>sampleTemperatures\<close> here, the name
  \<open>temperatures\<close> being the field of the processed data below.
\<close>

text \<open>
  Decimal rendering of a non-negative integer, as a template literal prints it.  A well
  number is the result of \<open>parseInt\<close> on a run of digits and is held in a double; the
  natural number here is that double as long as \<open>wellNumber + 1\<close> is below \<open>2\<^sup>5\<^sup>3\<close>, where
  every integer is a double and prints in plain decimal.
\<close>

function string_of_nat :: "nat \<Rightarrow> string" where
  "string_of_nat n =
     (if n < 10 then [''0123456789'' ! n]
      else string_of_nat (n div 10) @ [''0123456789'' ! (n mod 10)])"
  by pat_completeness auto
termination
  by (relation "measure id") auto

declare string_of_nat.simps [simp del]

text \<open>
  The \<open>forEach\<close> that builds the headers: \<open>idx\<close> is the position of the sample at the
  head of the list, \<open>usedNames\<close> the set of names given so far.  The name of a sample
  is \<open>s.sampleName || `Well_${s.wellNumber + 1}`\<close>; the empty string is the falsy name.
\<close>

fun sample_headers :: "nat \<Rightarrow> eds_sample list \<Rightarrow> string set \<Rightarrow> string list" where
  "sample_headers idx [] usedNames = []"
| "sample_headers idx (s # rest) usedNames =
     (let name0 = (if sampleName s \<noteq> [] then sampleName s
                   else ''Well_'' @ string_of_nat (wellNumber s + 1));
          name1 = (if name0 \<in> usedNames then name0 @ ''_'' @ string_of_nat (idx + 1)
                   else name0)
      in name1 # sample_headers (idx + 1) rest (insert name1 usedNames))"

definition eds_headers :: "eds_sample list \<Rightarrow> string list" where
  "eds_headers samples = ''Temperature'' # sample_headers 0 samples {}"

text \<open>
  One data row: the object starts as \<open>{ Temperature: refTemps[i] }\<close>, then every sample
  assigns its column, \<open>row[colName] = s.rnValues[i] !== undefined ? s.rnValues[i] : null\<close>.
  Assigning to a key the object already has replaces the value.  The key \<open>__proto__\<close> is
  the accessor every object literal inherits: assigning a number to it does nothing,
  assigning \<open>null\<close> clears the prototype, and neither gives the row a cell.
\<close>

definition set_property :: "string \<Rightarrow> cell \<Rightarrow> row \<Rightarrow> row" where
  "set_property key v obj = (if key = ''__proto__'' then obj else AList.update key v obj)"

definition rn_cell :: "eds_sample \<Rightarrow> nat \<Rightarrow> cell" where
  "rn_cell s i = (case js_index (rnValues s) (int i) of Some v \<Rightarrow> Number v | None \<Rightarrow> Null)"

definition eds_row :: "string list \<Rightarrow> eds_sample list \<Rightarrow> jsnum list \<Rightarrow> nat \<Rightarrow> row" where
  "eds_row hdrs samples refTemps i =
     foldl (\<lambda>row (colName, s). set_property colName (rn_cell s i) row)
       [(''Temperature'', Number (refTemps ! i))]
       (zip (drop 1 hdrs) samples)"

text \<open>
  \<open>formatForHRMAnalyzer\<close>.  On an empty sample list \<open>samples[0].temperatures\<close> throws,
  which is \<open>None\<close>; the caller never passes one.
\<close>

definition formatForHRMAnalyzer :: "eds_sample list \<Rightarrow> parsed_data option" where
  "formatForHRMAnalyzer samples =
     (case samples of
        [] \<Rightarrow> None
      | s0 # _ \<Rightarrow>
          (let refTemps = sampleTemperatures s0;
               hdrs = eds_headers samples
           in Some \<lparr> filename = ''eds_file'',
                     headers = hdrs,
                     tempHeader = ''Temperature'',
                     data = map (eds_row hdrs samples refTemps) [0 ..< length refTemps],
                     sampleCount = length samples \<rparr>))"

section \<open>The data processor\<close>

record sample =
  name :: string
  fluorescence :: "jsnum list"
  visible :: bool
  normalized :: "jsnum list option"
  derivative :: "jsnum list option"
  tm :: "jsnum option"
  difference :: "jsnum list option"

text \<open>
  The processed data.  Its fields \<open>normalized\<close>, \<open>derivative\<close> and \<open>difference\<close>, which
  are set to \<open>null\<close> at extraction and not used after, are left out; \<open>regions\<close> is
  absent until the first analysis.
\<close>

record processed_data =
  temperatures :: "jsnum list"
  samples :: "sample list"
  regions :: "regions option"

text \<open>
  The settings.  \<open>referenceSample\<close> is \<open>null\<close> (\<open>RefNull\<close>) or a value on which
  \<open>parseInt\<close> gives an integer or NaN (\<open>RefValue (Some k)\<close>, \<open>RefValue None\<close>).
  \<open>smoothingWindow\<close> is an integer.
\<close>

datatype reference_setting = RefNull | RefValue "int option"

record settings =
  normalizationMode :: string
  smoothingWindow :: int
  referenceSample :: reference_setting

record settings_patch =
  normalizationMode_given :: "string option"
  smoothingWindow_given :: "int option"
  referenceSample_given :: "reference_setting option"

record data_processor =
  rawData :: "parsed_data option"
  processedData :: "processed_data option"
  settings :: settings

datatype event = AnalysisComplete | SampleVisibilityChanged

definition constructor :: data_processor where
  "constructor =
     \<lparr> rawData = None, processedData = None,
       settings = \<lparr> normalizationMode = ''auto'', smoothingWindow = 5,
                    referenceSample = RefNull \<rparr> \<rparr>"

subsection \<open>Sample extraction\<close>

text \<open>
  \<open>fillMissingValues\<close>.  \<open>fill_pass\<close> is the \<open>map\<close> whose callback carries the last
  value seen; \<open>first_value\<close> is \<open>arr.find(v => v !== null) || 0\<close>, where \<open>0\<close> and an
  array without a value both give \<open>0\<close>.
\<close>

fun fill_pass :: "jsnum \<Rightarrow> jsnum option list \<Rightarrow> jsnum list" where
  "fill_pass lastVal [] = []"
| "fill_pass lastVal (None # vs) = lastVal # fill_pass lastVal vs"
| "fill_pass lastVal (Some v # vs) = v # fill_pass v vs"

definition first_value :: "jsnum option list \<Rightarrow> jsnum" where
  "first_value arr =
     (case List.find (\<lambda>v. v \<noteq> None) arr of
        Some (Some v) \<Rightarrow> (if v = Fin 0 \<or> isNaN v then Fin 0 else v)
      | _ \<Rightarrow> Fin 0)"

definition fillMissingValues :: "jsnum option list \<Rightarrow> jsnum list" where
  "fillMissingValues arr =
     (let forwardFilled = fill_pass (first_value arr) arr;
          reversed = rev (map Some forwardFilled)
      in rev (fill_pass (first_value reversed) reversed))"

text \<open>
  The body of the \<open>forEach\<close> over the headers: the temperature column is skipped, a
  column is pushed as a sample when its coverage exceeds \<open>0.5\<close>, and is reported by
  \<open>console.warn\<close> otherwise.
\<close>

datatype column_result = Skipped | Accepted sample | Dropped string

definition column_values :: "row list \<Rightarrow> string \<Rightarrow> jsnum option list" where
  "column_values validRows header =
     map (\<lambda>row. let val = parseFloat (map_of row header)
                in if isNaN val then None else Some val) validRows"

definition coverage :: "jsnum option list \<Rightarrow> jsnum list \<Rightarrow> jsnum" where
  "coverage fluor temps =
     js_div (Fin (of_nat (length (filter (\<lambda>f. f \<noteq> None) fluor))))
            (Fin (of_nat (length temps)))"

definition extract_column :: "row list \<Rightarrow> jsnum list \<Rightarrow> string \<Rightarrow> string \<Rightarrow> column_result" where
  "extract_column validRows temps tempHdr header =
     (if header = tempHdr then Skipped
      else let fluor = column_values validRows header in
        if js_gt (coverage fluor temps) (Fin (1 / 2))
        then Accepted \<lparr> name = header, fluorescence = fillMissingValues fluor,
                        visible = True, normalized = None, derivative = None,
                        tm = None, difference = None \<rparr>
        else Dropped header)"

fun accepted :: "column_result list \<Rightarrow> sample list" where
  "accepted [] = []"
| "accepted (Accepted s # rs) = s # accepted rs"
| "accepted (_ # rs) = accepted rs"

fun dropped :: "column_result list \<Rightarrow> string list" where
  "dropped [] = []"
| "dropped (Dropped h # rs) = h # dropped rs"
| "dropped (_ # rs) = dropped rs"

datatype extract_error = NoValidTemperatureData | NoValidSamples

definition valid_rows :: "parsed_data \<Rightarrow> row list" where
  "valid_rows raw =
     filter (\<lambda>row. \<not> isNaN (parseFloat (map_of row (tempHeader raw)))) (data raw)"

text \<open>
  \<open>extractSamples\<close> on the raw data: the processed data together with the list of
  dropped columns, or the error shown.
\<close>

definition extractSamples :: "parsed_data \<Rightarrow> extract_error + processed_data \<times> string list" where
  "extractSamples raw =
     (let validRows = valid_rows raw in
      if validRows = [] then Inl NoValidTemperatureData
      else
        let temps = map (\<lambda>row. parseFloat (map_of row (tempHeader raw))) validRows;
            results = map (extract_column validRows temps (tempHeader raw)) (headers raw)
        in if accepted results = [] then Inl NoValidSamples
           else Inr (\<lparr> temperatures = temps, samples = accepted results, regions = None \<rparr>,
                     dropped results))"

text \<open>\<open>setData\<close>: a failed extraction leaves \<open>processedData\<close> as it was.\<close>

definition setData :: "parsed_data \<Rightarrow> data_processor \<Rightarrow> data_processor" where
  "setData parsedData st =
     (case extractSamples parsedData of
        Inl _ \<Rightarrow> st\<lparr>rawData := Some parsedData\<rparr>
      | Inr (pd, _) \<Rightarrow> st\<lparr>rawData := Some parsedData, processedData := Some pd\<rparr>)"

subsection \<open>Analysis\<close>

definition merge_settings :: "settings \<Rightarrow> settings_patch \<Rightarrow> settings" where
  "merge_settings old patch =
     \<lparr> normalizationMode =
         (case normalizationMode_given patch of None \<Rightarrow> normalizationMode old | Some v \<Rightarrow> v),
       smoothingWindow =
         (case smoothingWindow_given patch of None \<Rightarrow> smoothingWindow old | Some v \<Rightarrow> v),
       referenceSample =
         (case referenceSample_given patch of None \<Rightarrow> referenceSample old | Some v \<Rightarrow> v) \<rparr>"

text \<open>Stage 2: \<open>{ ...sample, normalized }\<close>.\<close>

definition normalize_sample :: "regions \<Rightarrow> sample \<Rightarrow> sample" where
  "normalize_sample r s =
     s\<lparr>normalized := Some (normalizeArray (fluorescence s)
                             (preStart r) (preEnd r) (postStart r) (postEnd r))\<rparr>"

text \<open>
  Stage 3: smooth, differentiate, negate, find the Tm.  A sample without a normalized
  curve would make \<open>movingAverage\<close> throw, which is \<open>None\<close>.
\<close>

definition derive_sample :: "jsnum list \<Rightarrow> int \<Rightarrow> sample \<Rightarrow> sample option" where
  "derive_sample temps window s =
     (case normalized s of
        None \<Rightarrow> None
      | Some n \<Rightarrow>
          (let smoothed = movingAverage n window;
               deriv = calculateDerivative temps smoothed;
               negDeriv = map js_neg deriv
           in Some (s\<lparr>derivative := Some negDeriv, tm := findTm temps negDeriv\<rparr>)))"

text \<open>
  Stage 4.  \<open>difference_of reference idx s\<close> is the callback of the \<open>map\<close> over the
  samples once the reference curve has been read.
\<close>

definition difference_of :: "jsnum list \<Rightarrow> int \<Rightarrow> nat \<times> sample \<Rightarrow> sample option" where
  "difference_of reference refIdx p =
     (case p of (idx, s) \<Rightarrow>
        if int idx = refIdx
        then Some (s\<lparr>difference := Some (replicate (length reference) (Fin 0))\<rparr>)
        else (case normalized s of
                None \<Rightarrow> None
              | Some n \<Rightarrow>
                  Some (s\<lparr>difference :=
                    Some (map (\<lambda>(i, val). js_sub val (num_at reference (int i)))
                              (enumerate 0 n))\<rparr>)))"

definition difference_stage :: "reference_setting \<Rightarrow> sample list \<Rightarrow> sample list option" where
  "difference_stage ref derivativeSamples =
     (case ref of
        RefNull \<Rightarrow> Some derivativeSamples
      | RefValue None \<Rightarrow> Some derivativeSamples
      | RefValue (Some refIdx) \<Rightarrow>
          if 0 \<le> refIdx \<and> refIdx < int (length derivativeSamples) then
            (case normalized (derivativeSamples ! nat refIdx) of
               None \<Rightarrow> None
             | Some reference \<Rightarrow>
                 those (map (difference_of reference refIdx) (enumerate 0 derivativeSamples)))
          else Some derivativeSamples)"

text \<open>
  The body of the \<open>try\<close> block of \<open>analyze\<close>; \<open>None\<close> is an exception, which \<open>analyze\<close>
  catches.  \<open>samples[0].fluorescence\<close> throws on an empty sample list.
\<close>

definition run_pipeline :: "settings \<Rightarrow> processed_data \<Rightarrow> processed_data option" where
  "run_pipeline stg pd =
     (case samples pd of
        [] \<Rightarrow> None
      | s0 # _ \<Rightarrow>
          (let regs = detectMeltRegions (temperatures pd) (fluorescence s0);
               normalizedSamples = map (normalize_sample regs) (samples pd)
           in case those (map (derive_sample (temperatures pd) (smoothingWindow stg))
                              normalizedSamples) of
                None \<Rightarrow> None
              | Some derivativeSamples \<Rightarrow>
                  (case difference_stage (referenceSample stg) derivativeSamples of
                     None \<Rightarrow> None
                   | Some differenceSamples \<Rightarrow>
                       Some (pd\<lparr>samples := differenceSamples, regions := Some regs\<rparr>))))"

text \<open>
  \<open>analyze\<close>: the new state, the value returned (\<open>None\<close> for \<open>null\<close>) and the events
  dispatched.
\<close>

definition analyze ::
  "settings_patch \<Rightarrow> data_processor \<Rightarrow> data_processor \<times> processed_data option \<times> event list" where
  "analyze patch st =
     (case processedData st of
        None \<Rightarrow> (st, None, [])
      | Some pd \<Rightarrow>
          (let st1 = st\<lparr>settings := merge_settings (settings st) patch\<rparr> in
           case run_pipeline (settings st1) pd of
             None \<Rightarrow> (st1, None, [])
           | Some pd' \<Rightarrow> (st1\<lparr>processedData := Some pd'\<rparr>, Some pd', [AnalysisComplete])))"

subsection \<open>Visibility\<close>

text \<open>
  The index is any integer; \<open>samples[sampleIndex]\<close> is \<open>undefined\<close> outside the list
  and then nothing happens.
\<close>

definition toggleSampleVisibility :: "int \<Rightarrow> data_processor \<Rightarrow> data_processor \<times> event list" where
  "toggleSampleVisibility sampleIndex st =
     (case processedData st of
        None \<Rightarrow> (st, [])
      | Some pd \<Rightarrow>
          (case js_index (samples pd) sampleIndex of
             None \<Rightarrow> (st, [])
           | Some s \<Rightarrow>
               (st\<lparr>processedData :=
                    Some (pd\<lparr>samples :=
                      (samples pd)[nat sampleIndex := s\<lparr>visible := \<not> visible s\<rparr>]\<rparr>)\<rparr>,
                [SampleVisibilityChanged])))"

definition setSampleVisibility :: "int \<Rightarrow> bool \<Rightarrow> data_processor \<Rightarrow> data_processor \<times> event list" where
  "setSampleVisibility sampleIndex v st =
     (case processedData st of
        None \<Rightarrow> (st, [])
      | Some pd \<Rightarrow>
          (case js_index (samples pd) sampleIndex of
             None \<Rightarrow> (st, [])
           | Some s \<Rightarrow>
               (st\<lparr>processedData :=
                    Some (pd\<lparr>samples := (samples pd)[nat sampleIndex := s\<lparr>visible := v\<rparr>]\<rparr>)\<rparr>,
                [SampleVisibilityChanged])))"

definition setAllSamplesVisibility :: "bool \<Rightarrow> data_processor \<Rightarrow> data_processor \<times> event list" where
  "setAllSamplesVisibility v st =
     (case processedData st of
        None \<Rightarrow> (st, [])
      | Some pd \<Rightarrow>
          (st\<lparr>processedData := Some (pd\<lparr>samples := map (\<lambda>s. s\<lparr>visible := v\<rparr>) (samples pd)\<rparr>)\<rparr>,
           [SampleVisibilityChanged]))"

section \<open>Concrete inputs\<close>

text \<open>
  The end-to-end scenario of five temperatures and one sample, as a parsed table, and
  its analysis by a fresh processor with the default settings.
\<close>

definition scenario_table :: parsed_data where
  "scenario_table =
     \<lparr> filename = ''scenario.csv'',
       headers = [''Temperature'', ''S1''],
       tempHeader = ''Temperature'',
       data = [ [(''Temperature'', Number (Fin 60)), (''S1'', Number (Fin 100))],
                [(''Temperature'', Number (Fin (121 / 2))), (''S1'', Number (Fin 100))],
                [(''Temperature'', Number (Fin 61)), (''S1'', Number (Fin 80))],
                [(''Temperature'', Number (Fin (123 / 2))), (''S1'', Number (Fin 20))],
                [(''Temperature'', Number (Fin 62)), (''S1'', Number (Fin 20))] ],
       sampleCount = 1 \<rparr>"

definition no_patch :: settings_patch where
  "no_patch = \<lparr> normalizationMode_given = None, smoothingWindow_given = None,
                 referenceSample_given = None \<rparr>"

definition scenario_analysis :: "data_processor \<times> processed_data option \<times> event list" where
  "scenario_analysis = analyze no_patch (setData scenario_table constructor)"

definition returned_samples :: "data_processor \<times> processed_data option \<times> event list \<Rightarrow> sample list" where
  "returned_samples r = (case fst (snd r) of None \<Rightarrow> [] | Some pd \<Rightarrow> samples pd)"

text \<open>
  Three parsed samples of an archive, named \<open>A\<close>, \<open>A_3\<close> and \<open>A\<close>; the second has one
  Rn value for two temperatures.
\<close>

definition colliding_samples :: "eds_sample list" where
  "colliding_samples =
     [ \<lparr> wellNumber = 0, sampleName = ''A'', detector = ''SNP'', task = ''Target'',
         tmValues = ''60.8'', sampleTemperatures = [Fin 60, Fin 61],
         rnValues = [Fin 1, Fin 2], deltaRnTemperatures = [], deltaRnValues = [] \<rparr>,
       \<lparr> wellNumber = 1, sampleName = ''A_3'', detector = ''SNP'', task = ''Target'',
         tmValues = ''60.8'', sampleTemperatures = [Fin 60, Fin 61],
         rnValues = [Fin 3], deltaRnTemperatures = [], deltaRnValues = [] \<rparr>,
       \<lparr> wellNumber = 2, sampleName = ''A'', detector = ''SNP'', task = ''Target'',
         tmValues = ''60.8'', sampleTemperatures = [Fin 60, Fin 61],
         rnValues = [Fin 5, Fin 6], deltaRnTemperatures = [], deltaRnValues = [] \<rparr> ]"

section \<open>What a visibility change must leave alone\<close>

text \<open>
  Everything a processor holds apart from the \<open>visible\<close> flags: the raw data, the
  settings, and of the processed data the temperature axis, the regions and every
  field of every sample but \<open>visible\<close>.
\<close>

definition sample_numbers ::
  "sample \<Rightarrow> string \<times> jsnum list \<times> jsnum list option \<times> jsnum list option \<times> jsnum option \<times> jsnum list option" where
  "sample_numbers s = (name s, fluorescence s, normalized s, derivative s, tm s, difference s)"

definition processed_numbers ::
  "processed_data \<Rightarrow> jsnum list \<times> regions option \<times>
     (string \<times> jsnum list \<times> jsnum list option \<times> jsnum list option \<times> jsnum option \<times> jsnum list option) list" where
  "processed_numbers pd = (temperatures pd, regions pd, map sample_numbers (samples pd))"

definition visible_flags :: "data_processor \<Rightarrow> bool list option" where
  "visible_flags st = map_option (\<lambda>pd. map visible (samples pd)) (processedData st)"




text \<open>
  A table of four rows whose column \<open>S\<close> holds the text \<open>Infinity\<close> three times, on
  which \<open>parseFloat\<close> returns the infinite number, and one finite value.
\<close>

definition infinity_table :: parsed_data where
  "infinity_table =
     \<lparr> filename = ''inf.csv'',
       headers = [''Temperature'', ''S''],
       tempHeader = ''Temperature'',
       data = [ [(''Temperature'', Number (Fin 60)), (''S'', Number PInf)],
                [(''Temperature'', Number (Fin 61)), (''S'', Number PInf)],
                [(''Temperature'', Number (Fin 62)), (''S'', Number PInf)],
                [(''Temperature'', Number (Fin 63)), (''S'', Number (Fin 1))] ],
       sampleCount = 1 \<rparr>"

text \<open>
  A table of four rows with a column \<open>H\<close> that has a value in exactly two of them and a
  column \<open>G\<close> that has a value in three.
\<close>

definition half_table :: parsed_data where
  "half_table =
     \<lparr> filename = ''half.csv'',
       headers = [''Temperature'', ''H'', ''G''],
       tempHeader = ''Temperature'',
       data = [ [(''Temperature'', Number (Fin 60)), (''H'', Number (Fin 5)), (''G'', Number (Fin 9))],
                [(''Temperature'', Number (Fin 61)), (''H'', Null), (''G'', Null)],
                [(''Temperature'', Number (Fin 62)), (''H'', Number (Fin 3)), (''G'', Number (Fin 7))],
                [(''Temperature'', Number (Fin 63)), (''H'', Number NaN), (''G'', Number (Fin 6))] ],
       sampleCount = 2 \<rparr>"

section \<open>The states a processor can be in\<close>



section \<open>Region detection\<close>

lemma floor_tenth: "\<lfloor>(of_nat n :: rat) * (1 / 10)\<rfloor> = int n div 10"
proof -
  have "(of_nat n :: rat) * (1 / 10) = of_int (int n) / of_int 10" by simp
  then show ?thesis by (simp only: floor_divide_of_int_eq)
qed

lemma floor_nine_tenths: "\<lfloor>(of_nat n :: rat) * (9 / 10)\<rfloor> = (9 * int n) div 10"
proof -
  have "(of_nat n :: rat) * (9 / 10) = of_int (9 * int n) / of_int 10" by simp
  then show ?thesis by (simp only: floor_divide_of_int_eq)
qed

lemma detectMeltRegions_div:
  "detectMeltRegions temps fluor =
     \<lparr> preStart = 0, preEnd = int (length temps) div 10,
       postStart = (9 * int (length temps)) div 10,
       postEnd = int (length temps) \<rparr>"
  unfolding detectMeltRegions_def by (simp only: floor_tenth floor_nine_tenths)

text \<open>
  The floors do not depend on the exactness of the products.  Computed in doubles,
  \<open>N * 0.1\<close> and \<open>N * 0.9\<close> differ from \<open>N / 10\<close> and \<open>9 N / 10\<close> by an error \<open>e\<close> far
  below \<open>1 / 10\<close>, which is not negative when the exact quotient is an integer (the
  two literals lie above \<open>1 / 10\<close> and \<open>9 / 10\<close>, and rounding is monotone).  For every
  such error the floor is that of the exact quotient.
\<close>

lemma floor_tenths_stable:
  fixes e :: rat and m :: int
  assumes "\<bar>e\<bar> < 1 / 10" and "m mod 10 = 0 \<longrightarrow> 0 \<le> e"
  shows "\<lfloor>of_int m / 10 + e\<rfloor> = m div 10"
proof -
  define q r where "q = m div 10" and "r = m mod 10"
  have m: "m = 10 * q + r" and r: "0 \<le> r" "r \<le> 9" by (simp_all add: q_def r_def)
  have x: "(of_int m :: rat) / 10 + e = of_int q + (of_int r / 10 + e)"
    unfolding m by simp
  have lo: "0 \<le> of_int r / 10 + e"
  proof (cases "r = 0")
    case True
    then show ?thesis using assms(2) by (simp add: r_def)
  next
    case False
    then have "1 \<le> r" using r by simp
    then have "1 \<le> (of_int r :: rat)" by simp
    then show ?thesis using assms(1) by (simp add: abs_less_iff)
  qed
  have "(of_int r :: rat) \<le> of_int 9" using r(2) by (simp only: of_int_le_iff)
  then have hi: "of_int r / 10 + e < 1" using assms(1) by (simp add: abs_less_iff)
  have "\<lfloor>(of_int m :: rat) / 10 + e\<rfloor> = q"
    unfolding x by (rule floor_unique) (use lo hi in simp_all)
  then show ?thesis by (simp add: q_def)
qed

text \<open>
  C7.  For a temperature axis of length \<open>N\<close>, automatic region detection returns
  \<open>preStart = 0\<close>, \<open>preEnd = floor(0.1 N)\<close>, \<open>postStart = floor(0.9 N)\<close> and
  \<open>postEnd = N\<close>, and these satisfy
  \<open>0 \<le> preStart \<le> preEnd \<le> postStart \<le> postEnd \<le> N\<close>.
\<close>

theorem detectMeltRegions_ordered:
  fixes temps fluor :: "jsnum list"
  defines "r \<equiv> detectMeltRegions temps fluor"
  defines "N \<equiv> length temps"
  shows "preStart r = 0 \<and> preEnd r = \<lfloor>(of_nat N :: rat) * (1 / 10)\<rfloor>
       \<and> postStart r = \<lfloor>(of_nat N :: rat) * (9 / 10)\<rfloor> \<and> postEnd r = int N
       \<and> 0 \<le> preStart r \<and> preStart r \<le> preEnd r \<and> preEnd r \<le> postStart r
       \<and> postStart r \<le> postEnd r \<and> postEnd r \<le> int N"
proof -
  have r: "r = \<lparr> preStart = 0, preEnd = int N div 10,
                  postStart = (9 * int N) div 10, postEnd = int N \<rparr>"
    unfolding r_def N_def by (rule detectMeltRegions_div)
  have "0 \<le> int N div 10" "int N div 10 \<le> (9 * int N) div 10" "(9 * int N) div 10 \<le> int N"
    by simp_all
  then show ?thesis
    unfolding r floor_tenth floor_nine_tenths by simp
qed

theorem detectMeltRegions_ordered_witness:
  "detectMeltRegions (map Fin [60, 61, 62, 63, 64, 65, 66, 67, 68, 69, 70, 71]) [Fin 3]
     = \<lparr> preStart = 0, preEnd = 1, postStart = 10, postEnd = 12 \<rparr>"
  using detectMeltRegions_ordered [of "map Fin [60, 61, 62, 63, 64, 65, 66, 67, 68, 69, 70, 71]" "[Fin 3]"]
  by (simp add: detectMeltRegions_div)

text \<open>
  C9.  Region detection reads nothing but the length of the temperature axis: two
  temperature vectors of the same length give the same regions, whatever the
  temperatures and whatever the fluorescence vectors are.
\<close>

theorem detectMeltRegions_length_only:
  "length temps1 = length temps2 \<Longrightarrow>
     detectMeltRegions temps1 fluor1 = detectMeltRegions temps2 fluor2"
  by (simp add: detectMeltRegions_def)

theorem detectMeltRegions_length_only_witness:
  "length [Fin 60, Fin 61] = length [Fin 70, PInf]
   \<and> detectMeltRegions [Fin 60, Fin 61] [Fin 5, Fin 4] = detectMeltRegions [Fin 70, PInf] [NaN]"
  using detectMeltRegions_length_only [of "[Fin 60, Fin 61]" "[Fin 70, PInf]" "[Fin 5, Fin 4]" "[NaN]"]
  by simp

section \<open>Tm detection\<close>

lemma js_ge_abs_refl: "\<not> isNaN a \<Longrightarrow> js_ge (js_abs a) (js_abs a)"
  by (cases a) auto

lemma js_not_gt_ge: "\<not> isNaN a \<Longrightarrow> \<not> isNaN b \<Longrightarrow> \<not> js_gt a b \<Longrightarrow> js_ge b a"
  by (cases a; cases b) auto

lemma js_gt_ge_trans: "js_gt a b \<Longrightarrow> js_ge b c \<Longrightarrow> js_gt a c"
  by (cases a; cases b; cases c) auto

lemma js_gt_imp_ge: "js_gt a b \<Longrightarrow> js_ge a b"
  by (cases a; cases b) auto

lemma js_ge_trans: "js_ge a b \<Longrightarrow> js_ge b c \<Longrightarrow> js_ge a c"
  by (cases a; cases b; cases c) auto

lemma isNaN_abs [simp]: "isNaN (js_abs a) = isNaN a"
  by (cases a) auto

lemma findTm_scan_spec:
  assumes "\<forall>d \<in> set (pre @ ds). \<not> isNaN d"
    and "idx < length pre" and "m = pre ! idx"
    and "\<forall>j < length pre. js_ge (js_abs m) (js_abs (pre ! j))"
    and "\<forall>j < idx. js_gt (js_abs m) (js_abs (pre ! j))"
  shows "findTm_scan (length pre) ds idx m < length (pre @ ds)
    \<and> (\<forall>j < length (pre @ ds).
          js_ge (js_abs ((pre @ ds) ! findTm_scan (length pre) ds idx m)) (js_abs ((pre @ ds) ! j)))
    \<and> (\<forall>j < findTm_scan (length pre) ds idx m.
          js_gt (js_abs ((pre @ ds) ! findTm_scan (length pre) ds idx m)) (js_abs ((pre @ ds) ! j)))"
  using assms
proof (induction ds arbitrary: pre idx m)
  case Nil
  then show ?case by simp
next
  case (Cons d ds)
  let ?pre = "pre @ [d]"
  have nn: "\<forall>x \<in> set (?pre @ ds). \<not> isNaN x" using Cons.prems(1) by simp
  have dn: "\<not> isNaN d" and mn: "\<not> isNaN m"
    using Cons.prems(1,2,3) by (auto simp: nth_append)
  show ?case
  proof (cases "js_gt (js_abs d) (js_abs m)")
    case True
    have 1: "length pre < length ?pre" by simp
    have 2: "d = ?pre ! length pre" by simp
    have 3: "\<forall>j < length ?pre. js_ge (js_abs d) (js_abs (?pre ! j))"
    proof (intro allI impI)
      fix j assume "j < length ?pre"
      then consider "j < length pre" | "j = length pre" by fastforce
      then show "js_ge (js_abs d) (js_abs (?pre ! j))"
      proof cases
        case 1
        then have "js_ge (js_abs m) (js_abs (pre ! j))" using Cons.prems(4) by simp
        then have "js_gt (js_abs d) (js_abs (pre ! j))" using True js_gt_ge_trans by blast
        then show ?thesis using 1 by (simp add: nth_append js_gt_imp_ge)
      next
        case 2
        then show ?thesis using dn by (simp add: js_ge_abs_refl)
      qed
    qed
    have 4: "\<forall>j < length pre. js_gt (js_abs d) (js_abs (?pre ! j))"
    proof (intro allI impI)
      fix j assume j: "j < length pre"
      then have "js_ge (js_abs m) (js_abs (pre ! j))" using Cons.prems(4) by simp
      then have "js_gt (js_abs d) (js_abs (pre ! j))" using True js_gt_ge_trans by blast
      then show "js_gt (js_abs d) (js_abs (?pre ! j))" using j by (simp add: nth_append)
    qed
    from Cons.IH [OF nn 1 2 3 4] True show ?thesis by simp
  next
    case False
    have 1: "idx < length ?pre" using Cons.prems(2) by simp
    have 2: "m = ?pre ! idx" using Cons.prems(2,3) by (simp add: nth_append)
    have 3: "\<forall>j < length ?pre. js_ge (js_abs m) (js_abs (?pre ! j))"
    proof (intro allI impI)
      fix j assume "j < length ?pre"
      then consider "j < length pre" | "j = length pre" by fastforce
      then show "js_ge (js_abs m) (js_abs (?pre ! j))"
      proof cases
        case 1
        then show ?thesis using Cons.prems(4) by (simp add: nth_append)
      next
        case 2
        have "js_ge (js_abs m) (js_abs d)"
          using False dn mn by (intro js_not_gt_ge) simp_all
        then show ?thesis using 2 by simp
      qed
    qed
    have 4: "\<forall>j < idx. js_gt (js_abs m) (js_abs (?pre ! j))"
      using Cons.prems(2,5) by (simp add: nth_append)
    from Cons.IH [OF nn 1 2 3 4] False show ?thesis by simp
  qed
qed

text \<open>
  C2 (as amended).  For a temperature vector and a non-empty negated-derivative vector
  of the same length that holds no NaN, \<open>findTm\<close> returns the temperature at the index
  \<open>k\<close> of the loop's final candidate; the absolute value at \<open>k\<close> is at least that at
  every index and strictly greater than that at every earlier index, so \<open>k\<close> is the
  first index of maximal absolute value.
\<close>

theorem findTm_first_max:
  assumes "deriv \<noteq> []" and "length temps = length deriv"
    and "\<forall>d \<in> set deriv. \<not> isNaN d"
  shows "findTm_index deriv < length deriv
    \<and> findTm temps deriv = Some (temps ! findTm_index deriv)
    \<and> (\<forall>j < length deriv.
          js_ge (js_abs (deriv ! findTm_index deriv)) (js_abs (deriv ! j)))
    \<and> (\<forall>j < findTm_index deriv.
          js_gt (js_abs (deriv ! findTm_index deriv)) (js_abs (deriv ! j)))"
proof -
  obtain d0 ds where d: "deriv = d0 # ds" using assms(1) by (cases deriv) auto
  have idx: "findTm_index deriv = findTm_scan (length [d0]) ds 0 d0"
    by (simp add: findTm_index_def d num_at_def js_index_def to_number_def)
  have nn: "\<forall>x \<in> set ([d0] @ ds). \<not> isNaN x" using assms(3) d by simp
  have d0n: "\<not> isNaN d0" using assms(3) d by simp
  have spec: "findTm_scan (length [d0]) ds 0 d0 < length ([d0] @ ds)
    \<and> (\<forall>j < length ([d0] @ ds).
          js_ge (js_abs (([d0] @ ds) ! findTm_scan (length [d0]) ds 0 d0)) (js_abs (([d0] @ ds) ! j)))
    \<and> (\<forall>j < findTm_scan (length [d0]) ds 0 d0.
          js_gt (js_abs (([d0] @ ds) ! findTm_scan (length [d0]) ds 0 d0)) (js_abs (([d0] @ ds) ! j)))"
    by (rule findTm_scan_spec [OF nn]) (simp_all add: d0n js_ge_abs_refl)
  have e: "[d0] @ ds = deriv" using d by simp
  note spec' = spec [unfolded idx [symmetric] e]
  then have "findTm temps deriv = Some (temps ! findTm_index deriv)"
    using assms(2) by (simp add: findTm_def js_index_def)
  then show ?thesis using spec' by blast
qed

theorem findTm_first_max_witness:
  "map Fin [1, - 3, 3, 2] \<noteq> []
   \<and> length (map Fin [60, 61, 62, 63]) = length (map Fin [1, - 3, 3, 2])
   \<and> findTm_index (map Fin [1, - 3, 3, 2]) = 1
   \<and> findTm (map Fin [60, 61, 62, 63]) (map Fin [1, - 3, 3, 2]) = Some (Fin 61)"
  using findTm_first_max [of "map Fin [1, - 3, 3, 2]" "map Fin [60, 61, 62, 63]"]
  by (simp add: findTm_index_def findTm_def num_at_def js_index_def to_number_def)

text \<open>
  A derivative whose first element is NaN: no later element exceeds the candidate,
  every comparison with NaN being false, and \<open>findTm\<close> returns the first temperature
  although the largest absolute value stands at index \<open>2\<close>.
\<close>

theorem findTm_nan_first:
  "findTm [Fin 60, Fin 61, Fin 62] [NaN, Fin 1, Fin 2] = Some (Fin 60)
   \<and> findTm_index [NaN, Fin 1, Fin 2] = 0
   \<and> js_gt (js_abs (Fin 2)) (js_abs (Fin 1))
   \<and> \<not> js_ge (js_abs NaN) (js_abs (Fin 2))"
  by code_simp

section \<open>Normalization\<close>

subsection \<open>The formula before rounding\<close>

text \<open>
  Over the rationals, that is before any rounding, the formula
  \<open>(x - postAvg) / (preAvg - postAvg)\<close> with two different finite averages is an affine
  bijection.  The doubles the code computes with do not inherit this, as the end of this
  section shows.
\<close>

lemma normalize_value_Fin:
  "a \<noteq> b \<Longrightarrow> normalize_value (Fin a) (Fin b) (Fin x) = Fin ((x - b) / (a - b))"
  by (simp add: normalize_value_def js_sub_def)

lemma normalize_value_bij:
  assumes "a \<noteq> b"
  shows "bij_betw (normalize_value (Fin a) (Fin b)) (range Fin) (range Fin)"
  unfolding bij_betw_def
proof
  show "inj_on (normalize_value (Fin a) (Fin b)) (range Fin)"
    using assms by (auto simp: inj_on_def normalize_value_Fin)
  show "normalize_value (Fin a) (Fin b) ` range Fin = range Fin"
  proof
    show "normalize_value (Fin a) (Fin b) ` range Fin \<subseteq> range Fin"
      using assms by (auto simp: normalize_value_Fin)
    show "range Fin \<subseteq> normalize_value (Fin a) (Fin b) ` range Fin"
    proof
      fix y assume "y \<in> range Fin"
      then obtain q where y: "y = Fin q" by auto
      have "normalize_value (Fin a) (Fin b) (Fin (q * (a - b) + b)) = Fin q"
        using assms by (simp add: normalize_value_Fin)
      then show "y \<in> normalize_value (Fin a) (Fin b) ` range Fin"
        unfolding y by (metis rangeI image_eqI)
    qed
  qed
qed

subsection \<open>Rounding to a double\<close>

text \<open>
  For a value in the binade \<open>[2\<^sup>e, 2\<^sup>e\<^sup>+\<^sup>1)\<close> with \<open>e \<ge> -1022\<close>, rounding keeps 52 bits below
  the leading one; small integers and powers of two below \<open>2\<^sup>1\<^sup>0\<^sup>2\<^sup>4\<close> are doubles; every
  finite result is a multiple of the smallest subnormal, and a non-zero multiple of it
  never rounds to zero.
\<close>

lemma bitlen_eqI:
  assumes "2 ^ k \<le> n" and "n < 2 ^ Suc k"
  shows "bitlen n = int k + 1"
proof -
  have pos: "0 < n" using assms(1) by (smt (verit) zero_less_power)
  define b where "b = nat (bitlen n - 1)"
  have b1: "1 \<le> bitlen n" using pos by (simp add: bitlen_alt_def)
  then have nb: "nat (bitlen n) = Suc b" by (simp add: b_def)
  from bitlen_bounds [OF pos] have lo: "2 ^ b \<le> n" and hi: "n < 2 ^ Suc b"
    by (simp_all add: b_def nb [unfolded b_def])
  have "(2::int) ^ b < 2 ^ Suc k" using lo assms(2) by linarith
  then have "b < Suc k" by (rule power_less_imp_less_exp [rotated]) simp
  moreover have "(2::int) ^ k < 2 ^ Suc b" using hi assms(1) by linarith
  then have "k < Suc b" by (rule power_less_imp_less_exp [rotated]) simp
  ultimately have "b = k" by simp
  then show ?thesis using b1 by (simp add: b_def)
qed

lemma round_half_even_of_int [simp]: "round_half_even (of_int n) = n"
  by (simp add: round_half_even_def)

lemma round_double_normal:
  assumes e: "- 1022 \<le> e" and lo: "2 powi e \<le> \<bar>q\<bar>" and hi: "\<bar>q\<bar> < 2 powi (e + 1)"
  shows "round_double q =
     (let m = round_half_even (\<bar>q\<bar> * 2 powi (52 - e));
          r = of_int m * 2 powi (e - 52)
      in if 2 ^ overflow_bits \<le> r then (if 0 < q then PInf else NInf)
         else Fin (sgn q * r))"
proof -
  define G where "G = subnormal_bits"
  define k where "k = nat (e + 1074)"
  have ik: "int k = e + int G" using e by (simp add: k_def G_def subnormal_bits_def)
  have kG: "k = nat (e + 1022) + 52" and Gs: "int G = 1074"
    using e by (simp_all add: k_def G_def subnormal_bits_def)
  define t where "t = \<bar>q\<bar> * 2 ^ G"
  have two: "(2::rat) ^ k = 2 powi e * 2 ^ G"
  proof -
    have "(2::rat) ^ k = 2 powi (int k)" by simp
    also have "\<dots> = 2 powi e * 2 powi (int G)" unfolding ik by (simp add: power_int_add)
    finally show ?thesis by simp
  qed
  have two': "(2::rat) ^ Suc k = 2 powi (e + 1) * 2 ^ G"
  proof -
    have "(2::rat) ^ Suc k = 2 powi (int (Suc k))" by (simp only: power_int_of_nat)
    also have "int (Suc k) = (e + 1) + int G" using ik by simp
    also have "(2::rat) powi ((e + 1) + int G) = 2 powi (e + 1) * 2 powi (int G)"
      by (simp add: power_int_add)
    finally show ?thesis by simp
  qed
  have tlo: "2 ^ k \<le> t" unfolding t_def two using lo by simp
  have thi: "t < 2 ^ Suc k" unfolding t_def two' using hi by simp
  have flo: "(2::int) ^ k \<le> \<lfloor>t\<rfloor>"
  proof -
    have "of_int ((2::int) ^ k) \<le> t" using tlo by simp
    then show ?thesis by (simp only: le_floor_iff)
  qed
  have fhi: "\<lfloor>t\<rfloor> < (2::int) ^ Suc k"
  proof -
    have "t < of_int ((2::int) ^ Suc k)" using thi by simp
    then show ?thesis by (simp only: floor_less_iff)
  qed
  have bl: "bitlen \<lfloor>t\<rfloor> = int k + 1" by (rule bitlen_eqI [OF flo fhi])
  define s where "s = nat (e + 1022)"
  have s: "nat (bitlen \<lfloor>t\<rfloor> - 53) = s" unfolding bl using e by (simp add: s_def kG)
  have si: "int s = e + 1022" using e by (simp add: s_def)
  have d1: "t / 2 ^ s = \<bar>q\<bar> * 2 powi (52 - e)"
  proof -
    have "(2::rat) ^ G / 2 ^ s = 2 powi (int G) / 2 powi (int s)" by simp
    also have "\<dots> = 2 powi (int G - int s)" by (simp add: power_int_diff)
    also have "int G - int s = 52 - e" using Gs si by simp
    finally have x: "(2::rat) ^ G / 2 ^ s = 2 powi (52 - e)" .
    have "t / 2 ^ s = \<bar>q\<bar> * (2 ^ G / 2 ^ s)" by (simp add: t_def)
    then show ?thesis unfolding x .
  qed
  have d2: "of_int m * (2::rat) ^ s / 2 ^ G = of_int m * 2 powi (e - 52)" for m
  proof -
    have "(2::rat) ^ s / 2 ^ G = 2 powi (int s) / 2 powi (int G)" by simp
    also have "\<dots> = 2 powi (int s - int G)" by (simp add: power_int_diff)
    also have "int s - int G = e - 52" using Gs si by simp
    finally have x: "(2::rat) ^ s / 2 ^ G = 2 powi (e - 52)" .
    have "of_int m * (2::rat) ^ s / 2 ^ G = of_int m * (2 ^ s / 2 ^ G)" by simp
    then show ?thesis unfolding x .
  qed
  show ?thesis
    unfolding round_double_def G_def [symmetric] t_def [symmetric] Let_def s d1 d2 ..
qed

lemma pw_mult: "(2::rat) powi a * 2 powi b = 2 powi (a + b)"
  by (simp add: power_int_add)

lemma pw_cong: "a = b \<Longrightarrow> (2::rat) powi a = 2 powi b"
  by simp

lemma round_double_zero: "round_double 0 = Fin 0"
proof -
  have "\<not> (2::rat) ^ overflow_bits \<le> 0" by (simp add: not_le)
  then show ?thesis
    unfolding round_double_def
    by (simp add: bitlen_alt_def round_half_even_def)
qed

lemma round_half_even_bounds: "\<lfloor>x\<rfloor> \<le> round_half_even x \<and> round_half_even x \<le> \<lfloor>x\<rfloor> + 1"
  by (simp add: round_half_even_def Let_def)

lemma round_double_finite:
  assumes e: "- 1022 \<le> e" "e \<le> 1022" and lo: "2 powi e \<le> \<bar>q\<bar>" and hi: "\<bar>q\<bar> < 2 powi (e + 1)"
  shows "round_double q
           = Fin (sgn q * (of_int (round_half_even (\<bar>q\<bar> * 2 powi (52 - e))) * 2 powi (e - 52)))"
proof -
  define x where "x = \<bar>q\<bar> * 2 powi (52 - e)"
  define m where "m = round_half_even x"
  define H where "H = overflow_bits"
  have "x < 2 powi (e + 1) * 2 powi (52 - e)"
    unfolding x_def using hi by (simp add: mult_strict_right_mono)
  also have "\<dots> = 2 powi ((e + 1) + (52 - e))" by (rule pw_mult)
  also have "\<dots> = 2 powi 53" by (rule pw_cong) simp
  also have "\<dots> = of_int (2 ^ 53)" by simp
  finally have "\<lfloor>x\<rfloor> < 2 ^ 53" by (simp only: floor_less_iff)
  then have m53: "m \<le> 2 ^ 53" using round_half_even_bounds [of x] unfolding m_def by linarith
  have "0 \<le> x" by (simp add: x_def)
  then have "0 \<le> \<lfloor>x\<rfloor>" by simp
  then have m0: "0 \<le> m" using round_half_even_bounds [of x] unfolding m_def by linarith
  have "of_int m * (2::rat) powi (e - 52) \<le> of_int (2 ^ 53) * 2 powi (e - 52)"
    using m53 by (intro mult_right_mono) (simp_all only: of_int_le_iff, simp)
  also have "of_int (2 ^ 53) * (2::rat) powi (e - 52) = 2 powi 53 * 2 powi (e - 52)" by simp
  also have "\<dots> = 2 powi (53 + (e - 52))" by (rule pw_mult)
  also have "\<dots> \<le> 2 powi 1023" using e by (intro power_int_increasing) simp_all
  also have "\<dots> < 2 powi (int H)"
    unfolding H_def overflow_bits_def by (intro power_int_strict_increasing) simp_all
  finally have "\<not> (2::rat) ^ H \<le> of_int m * 2 powi (e - 52)" by (simp add: not_le)
  then show ?thesis
    unfolding round_double_normal [OF e(1) lo hi] Let_def x_def [symmetric] m_def [symmetric]
      H_def [symmetric]
    by simp
qed

lemma round_double_int:
  assumes "\<bar>n\<bar> < 2 ^ 53"
  shows "round_double (of_int n) = Fin (of_int n)"
proof (cases "n = 0")
  case True
  then show ?thesis by (simp add: round_double_zero)
next
  case False
  define a where "a = \<bar>n\<bar>"
  have a: "0 < a" "a < 2 ^ 53" using False assms by (simp_all add: a_def)
  define b where "b = nat (bitlen a - 1)"
  have b1: "1 \<le> bitlen a" using a(1) by (simp add: bitlen_alt_def)
  then have nb: "nat (bitlen a) = Suc b" by (simp add: b_def)
  from bitlen_bounds [OF a(1)] have blo: "2 ^ b \<le> a" and bhi: "a < 2 ^ Suc b"
    by (simp_all add: b_def nb [unfolded b_def])
  have "(2::int) ^ b < 2 ^ 53" using blo a(2) by linarith
  then have b53: "b < 53" by (rule power_less_imp_less_exp [rotated]) simp
  define e where "e = int b"
  have e: "- 1022 \<le> e" "e \<le> 1022" using b53 by (simp_all add: e_def)
  have abs: "\<bar>of_int n :: rat\<bar> = of_int a" by (simp add: a_def)
  have lo: "2 powi e \<le> \<bar>of_int n :: rat\<bar>"
    unfolding abs e_def power_int_of_nat using blo
    by (metis of_int_le_iff of_int_numeral of_int_power)
  have "(of_int a :: rat) < of_int (2 ^ Suc b)" using bhi by (simp only: of_int_less_iff)
  then have hi: "\<bar>of_int n :: rat\<bar> < 2 powi (e + 1)"
    unfolding abs e_def by (simp add: power_int_add)
  define c where "c = 52 - b"
  have ce: "52 - e = int c" and ec: "e - 52 = - int c" using b53 by (simp_all add: c_def e_def)
  have x: "\<bar>of_int n :: rat\<bar> * 2 powi (52 - e) = of_int (a * 2 ^ c)"
    unfolding abs ce by simp
  have "(2::rat) powi int c * 2 powi (- int c) = 2 powi (int c + - int c)" by (rule pw_mult)
  then have one: "(2::rat) ^ c * 2 powi (- int c) = 1" by simp
  have "of_int (a * 2 ^ c) * (2::rat) powi (e - 52) = of_int a * (2 ^ c * 2 powi (- int c))"
    unfolding ec by simp
  then have r: "of_int (a * 2 ^ c) * (2::rat) powi (e - 52) = of_int a" unfolding one by simp
  have sg: "sgn (of_int n :: rat) * of_int a = of_int n"
    by (simp add: a_def sgn_if)
  show ?thesis
    unfolding round_double_finite [OF e lo hi] x round_half_even_of_int r sg ..
qed

lemma round_double_one: "round_double 1 = Fin 1"
  using round_double_int [of 1] by simp

lemma round_double_grid:
  assumes "round_double q = Fin a"
  shows "\<exists>j :: int. a = of_int j / 2 ^ subnormal_bits"
proof -
  define G where "G = subnormal_bits"
  define s where "s = nat (bitlen \<lfloor>\<bar>q\<bar> * 2 ^ G\<rfloor> - 53)"
  define m where "m = round_half_even (\<bar>q\<bar> * 2 ^ G / 2 ^ s)"
  have "a = sgn q * (of_int m * 2 ^ s / 2 ^ G)"
    using assms unfolding round_double_def G_def [symmetric] Let_def s_def [symmetric]
      m_def [symmetric]
    by (simp split: if_splits)
  also have "\<dots> = of_int ((if q < 0 then - 1 else if q = 0 then 0 else 1) * m * 2 ^ s) / 2 ^ G"
    by (simp add: sgn_if)
  finally show ?thesis unfolding G_def by blast
qed

lemma round_double_not_NaN: "round_double q \<noteq> NaN"
  by (simp add: round_double_def Let_def)

lemma round_double_nonzero:
  assumes "j \<noteq> 0"
  shows "round_double (of_int j / 2 ^ subnormal_bits) \<noteq> Fin 0"
proof -
  define G where "G = subnormal_bits"
  define H where "H = overflow_bits"
  define q :: rat where "q = of_int j / 2 ^ G"
  define a where "a = \<bar>j\<bar>"
  have a: "0 < a" using assms by (simp add: a_def)
  have t: "\<bar>q\<bar> * 2 ^ G = of_int a" by (simp add: q_def a_def)
  define s where "s = nat (bitlen a - 53)"
  define m where "m = round_half_even (of_int a / (2::rat) ^ s)"
  have sa: "2 ^ s \<le> a"
  proof (cases "bitlen a \<le> 53")
    case True
    then show ?thesis using a by (simp add: s_def)
  next
    case False
    then have "s \<le> nat (bitlen a - 1)" by (simp add: s_def)
    then have "(2::int) ^ s \<le> 2 ^ nat (bitlen a - 1)" by (intro power_increasing) simp_all
    then show ?thesis using bitlen_bounds [OF a] by linarith
  qed
  then have "(of_int (2 ^ s) :: rat) \<le> of_int a" by (simp only: of_int_le_iff)
  then have "1 \<le> of_int a / (2::rat) ^ s" by (simp add: le_divide_eq)
  then have "1 \<le> \<lfloor>of_int a / (2::rat) ^ s\<rfloor>" by (simp add: le_floor_iff)
  then have m1: "1 \<le> m" using round_half_even_bounds [of "of_int a / (2::rat) ^ s"]
    unfolding m_def by linarith
  then have "0 < (of_int m :: rat)" by simp
  then have r: "0 < of_int m * (2::rat) ^ s / 2 ^ G" by simp
  have q0: "q \<noteq> 0" using assms by (simp add: q_def)
  have res: "round_double q =
      (if 2 ^ H \<le> of_int m * (2::rat) ^ s / 2 ^ G then (if 0 < q then PInf else NInf)
       else Fin (sgn q * (of_int m * 2 ^ s / 2 ^ G)))"
    unfolding round_double_def G_def [symmetric] H_def [symmetric] Let_def t floor_of_int
      s_def [symmetric] m_def [symmetric] ..
  have "sgn q \<noteq> 0" using q0 by (simp add: sgn_if)
  moreover have "of_int m * (2::rat) ^ s / 2 ^ G \<noteq> 0" using r by linarith
  ultimately have "sgn q * (of_int m * (2::rat) ^ s / 2 ^ G) \<noteq> 0"
    by (simp only: mult_eq_0_iff, simp)
  then have "round_double q \<noteq> Fin 0"
    unfolding res by (simp split: if_splits)
  then show ?thesis unfolding q_def G_def .
qed

lemma round_double_pow2:
  "round_double (2 ^ k) = (if k < 1024 then Fin (2 ^ k) else PInf)"
proof -
  define H where "H = overflow_bits"
  define e where "e = int k"
  have e: "- 1022 \<le> e" by (simp add: e_def)
  have ab: "\<bar>(2::rat) ^ k\<bar> = 2 powi e" by (simp add: e_def)
  have lo: "2 powi e \<le> \<bar>(2::rat) ^ k\<bar>" unfolding ab by simp
  have hi: "\<bar>(2::rat) ^ k\<bar> < 2 powi (e + 1)"
    unfolding ab by (intro power_int_strict_increasing) simp_all
  have "(2::rat) powi e * 2 powi (52 - e) = 2 powi (e + (52 - e))" by (rule pw_mult)
  also have "\<dots> = 2 powi 52" by (rule pw_cong) simp
  also have "\<dots> = of_int (2 ^ 52)" by simp
  finally have x: "\<bar>(2::rat) ^ k\<bar> * 2 powi (52 - e) = of_int (2 ^ 52)" unfolding ab .
  have "of_int (2 ^ 52) * (2::rat) powi (e - 52) = 2 powi 52 * 2 powi (e - 52)" by simp
  also have "\<dots> = 2 powi (52 + (e - 52))" by (rule pw_mult)
  also have "\<dots> = 2 powi e" by (rule pw_cong) simp
  also have "\<dots> = 2 ^ k" by (simp add: e_def)
  finally have r: "of_int (2 ^ 52) * (2::rat) powi (e - 52) = 2 ^ k" .
  have "(2::rat) ^ H \<le> 2 ^ k \<longleftrightarrow> H \<le> k"
    by (rule power_increasing_iff) simp
  moreover have "H = 1024" by (simp add: H_def overflow_bits_def)
  ultimately have ov: "(2::rat) ^ H \<le> 2 ^ k \<longleftrightarrow> \<not> k < 1024"
    by (simp only: not_less)
  have pos: "0 < (2::rat) ^ k" and sg: "sgn ((2::rat) ^ k) = 1" by simp_all
  show ?thesis
    unfolding round_double_normal [OF e lo hi] Let_def x round_half_even_of_int r
      H_def [symmetric] ov sg
    using pos by simp
qed

subsection \<open>Constant curves\<close>

text \<open>
  Both averages are doubles, so their difference is a multiple of the smallest
  subnormal; when they differ it rounds neither to zero nor to NaN.  It may round to an
  infinity.
\<close>

lemma dbl_sub_Fin: "dbl_sub (Fin a) (Fin b) = round_double (a - b)"
  by (simp add: dbl_sub_def)

lemma dbl_div_NaN [simp]: "dbl_div x NaN = NaN"
  by (cases x) simp_all

lemma dbl_sub_NaN [simp]: "dbl_sub NaN x = NaN"
  by (cases x) (simp_all add: dbl_sub_def)

lemma mean_double_grid:
  assumes "mean_double xs = Fin a"
  shows "\<exists>j :: int. a = of_int j / 2 ^ subnormal_bits"
proof (cases "foldl dbl_add (Fin 0) xs")
  case (Fin s)
  show ?thesis
  proof (cases "xs = []")
    case True
    then show ?thesis using assms Fin by (simp add: mean_double_def split: if_splits)
  next
    case False
    then have "round_double (s / of_nat (length xs)) = Fin a"
      using assms Fin by (simp add: mean_double_def)
    then show ?thesis by (rule round_double_grid)
  qed
next
  case PInf
  then show ?thesis using assms by (simp add: mean_double_def split: if_splits)
next
  case NInf
  then show ?thesis using assms by (simp add: mean_double_def split: if_splits)
next
  case NaN
  then show ?thesis using assms by (simp add: mean_double_def)
qed

lemma difference_of_doubles:
  assumes "a = of_int i / 2 ^ subnormal_bits" and "b = of_int j / 2 ^ subnormal_bits"
    and "a \<noteq> b"
  shows "dbl_sub (Fin a) (Fin b) \<noteq> Fin 0 \<and> dbl_sub (Fin a) (Fin b) \<noteq> NaN"
proof -
  have ij: "i - j \<noteq> 0" using assms by auto
  have "a - b = of_int (i - j) / 2 ^ subnormal_bits"
    unfolding assms(1,2) by (simp add: diff_divide_distrib)
  then show ?thesis
    unfolding dbl_sub_Fin using round_double_nonzero [OF ij] round_double_not_NaN by simp
qed

lemma normalize_constant_values:
  assumes d0: "dbl_sub (Fin a) (Fin b) \<noteq> Fin 0" and dn: "dbl_sub (Fin a) (Fin b) \<noteq> NaN"
  shows "normalize_value_double (Fin a) (Fin b) (Fin b) = Fin 0"
    and "normalize_value_double (Fin a) (Fin b) (Fin a)
           = (if is_finite (dbl_sub (Fin a) (Fin b)) then Fin 1 else NaN)"
proof -
  have z: "dbl_sub (Fin b) (Fin b) = Fin 0" by (simp add: dbl_sub_Fin round_double_zero)
  show "normalize_value_double (Fin a) (Fin b) (Fin b) = Fin 0"
    unfolding normalize_value_double_def z using d0 dn
    by (cases "dbl_sub (Fin a) (Fin b)") (simp_all add: round_double_zero)
  show "normalize_value_double (Fin a) (Fin b) (Fin a)
           = (if is_finite (dbl_sub (Fin a) (Fin b)) then Fin 1 else NaN)"
    unfolding normalize_value_double_def using d0 dn
    by (cases "dbl_sub (Fin a) (Fin b)") (simp_all add: round_double_one)
qed

lemma round_double_20: "round_double 20 = Fin 20"
  using round_double_int [of 20] by simp

lemma round_double_80: "round_double 80 = Fin 80"
  using round_double_int [of 80] by simp

lemma round_double_100: "round_double 100 = Fin 100"
  using round_double_int [of 100] by simp


text \<open>
  C3 (as amended).  When the pre-melt and post-melt averages that \<open>normalizeArray\<close>
  computes are finite and different, it applies the map \<open>normalize_value_double\<close> with
  these averages to every point; in double-precision arithmetic this map sends a
  constant curve equal to \<open>postAvg\<close> to all zeros, and a constant curve equal to \<open>preAvg\<close>
  to all ones when \<open>preAvg - postAvg\<close> is finite and to NaN everywhere when that
  difference overflows.  Nothing is claimed about the map being affine or invertible:
  on doubles it is neither.
\<close>

theorem normalization_constant_curves:
  assumes "mean_double (js_slice arr ps pe) = Fin preAvg"
    and "mean_double (js_slice arr qs qe) = Fin postAvg"
    and "preAvg \<noteq> postAvg"
  shows "normalizeArray_double arr ps pe qs qe
           = map (normalize_value_double (Fin preAvg) (Fin postAvg)) arr
    \<and> map (normalize_value_double (Fin preAvg) (Fin postAvg)) (replicate n (Fin postAvg))
        = replicate n (Fin 0)
    \<and> map (normalize_value_double (Fin preAvg) (Fin postAvg)) (replicate n (Fin preAvg))
        = replicate n (if is_finite (dbl_sub (Fin preAvg) (Fin postAvg)) then Fin 1 else NaN)"
proof -
  obtain i j where "preAvg = of_int i / 2 ^ subnormal_bits"
    and "postAvg = of_int j / 2 ^ subnormal_bits"
    using mean_double_grid [OF assms(1)] mean_double_grid [OF assms(2)] by blast
  from difference_of_doubles [OF this assms(3)]
  have d: "dbl_sub (Fin preAvg) (Fin postAvg) \<noteq> Fin 0" "dbl_sub (Fin preAvg) (Fin postAvg) \<noteq> NaN"
    by simp_all
  have 1: "normalizeArray_double arr ps pe qs qe
           = map (normalize_value_double (Fin preAvg) (Fin postAvg)) arr"
    using assms(1,2) by (simp add: normalizeArray_double_def)
  show ?thesis
    using 1 normalize_constant_values [OF d] by simp
qed


theorem normalization_constant_curves_witness:
  "mean_double (js_slice [Fin 100, Fin 20] 0 1) = Fin 100
   \<and> mean_double (js_slice [Fin 100, Fin 20] 1 2) = Fin 20
   \<and> (100 :: rat) \<noteq> 20
   \<and> normalizeArray_double [Fin 100, Fin 20] 0 1 1 2 = [Fin 1, Fin 0]
   \<and> map (normalize_value_double (Fin 100) (Fin 20)) (replicate 2 (Fin 20)) = [Fin 0, Fin 0]
   \<and> map (normalize_value_double (Fin 100) (Fin 20)) (replicate 2 (Fin 100)) = [Fin 1, Fin 1]"
proof -
  have h1: "mean_double (js_slice [Fin 100, Fin 20] 0 1) = Fin 100"
    by (simp add: mean_double_def js_slice_def round_double_100)
  have h2: "mean_double (js_slice [Fin 100, Fin 20] 1 2) = Fin 20"
    by (simp add: mean_double_def js_slice_def round_double_20)
  have h3: "(100 :: rat) \<noteq> 20" by simp
  have f: "is_finite (dbl_sub (Fin 100) (Fin 20))"
    by (simp add: dbl_sub_Fin round_double_80)
  show ?thesis
    using normalization_constant_curves [OF h1 h2 h3, of 1]
      normalization_constant_curves [OF h1 h2 h3, of 2] h1 h2 f
    by (simp add: numeral_2_eq_2)
qed

subsection \<open>Where the unamended statement fails\<close>

lemma overflow_example:
  assumes "k = 1023"
  shows "normalizeArray_double [Fin (2 ^ k), Fin 0, Fin (- (2 ^ k))] 0 1 2 3
           = [NaN, Fin 0, Fin 0]"
proof -
  define A :: rat where "A = 2 ^ k"
  have rA: "round_double A = Fin A" unfolding A_def round_double_pow2 using assms by simp
  have "A + A = 2 ^ Suc k" by (simp add: A_def)
  then have rAA: "round_double (A + A) = PInf"
    using round_double_pow2 [of "Suc k"] assms by simp
  have Apos: "0 < A" by (simp add: A_def)
  then have "round_double (- A) = js_neg (round_double A)"
    by (simp add: round_double_def Let_def sgn_if)
  then have rmA: "round_double (- A) = Fin (- A)" using rA by simp
  have m1: "mean_double [Fin A] = Fin A" by (simp add: mean_double_def rA)
  have m2: "mean_double [Fin (- A)] = Fin (- A)" by (simp add: mean_double_def rmA)
  have s1: "js_slice [Fin A, Fin 0, Fin (- A)] 0 1 = [Fin A]"
    and s2: "js_slice [Fin A, Fin 0, Fin (- A)] 2 3 = [Fin (- A)]"
    by (simp_all add: js_slice_def)
  have "dbl_sub (Fin A) (Fin (- A)) = round_double (A + A)" by (simp add: dbl_sub_def)
  then have d: "dbl_sub (Fin A) (Fin (- A)) = PInf" by (simp only: rAA)
  have d0: "dbl_sub (Fin 0) (Fin (- A)) = Fin A" by (simp add: dbl_sub_def rA)
  have d1: "dbl_sub (Fin (- A)) (Fin (- A)) = Fin 0" by (simp add: dbl_sub_def round_double_zero)
  show ?thesis
    unfolding A_def [symmetric] normalizeArray_double_def Let_def s1 s2 m1 m2
    by (simp add: normalize_value_double_def d d0 d1)
qed

lemma round_x1: "round_double (3 / 2 + 1 / 2 ^ 52) = Fin (3 / 2 + 1 / 2 ^ 52)"
  by (subst round_double_finite [where e = 0]; code_simp)

lemma round_x2: "round_double (3 / 2 + 1 / 2 ^ 51) = Fin (3 / 2 + 1 / 2 ^ 51)"
  by (subst round_double_finite [where e = 0]; code_simp)

lemma round_x1_third: "round_double ((3 / 2 + 1 / 2 ^ 52) / 3) = Fin (1 / 2 + 1 / 2 ^ 53)"
  by (subst round_double_finite [where e = "- 1"]; code_simp)

lemma round_x2_third: "round_double ((3 / 2 + 1 / 2 ^ 51) / 3) = Fin (1 / 2 + 1 / 2 ^ 53)"
  by (subst round_double_finite [where e = "- 1"]; code_simp)

lemma round_double_3: "round_double 3 = Fin 3"
  using round_double_int [of 3] by simp

lemma not_injective_example:
  "normalize_value_double (Fin 3) (Fin 0) (Fin (3 / 2 + 1 / 2 ^ 52)) = Fin (1 / 2 + 1 / 2 ^ 53)"
  "normalize_value_double (Fin 3) (Fin 0) (Fin (3 / 2 + 1 / 2 ^ 51)) = Fin (1 / 2 + 1 / 2 ^ 53)"
proof -
  have p: "dbl_sub (Fin 3) (Fin 0) = Fin 3" by (simp add: dbl_sub_def round_double_3)
  have a: "dbl_sub (Fin (3 / 2 + 1 / 2 ^ 52)) (Fin 0) = Fin (3 / 2 + 1 / 2 ^ 52)"
    unfolding dbl_sub_def js_neg.simps dbl_add.simps minus_zero add_0_right by (rule round_x1)
  have b: "dbl_sub (Fin (3 / 2 + 1 / 2 ^ 51)) (Fin 0) = Fin (3 / 2 + 1 / 2 ^ 51)"
    unfolding dbl_sub_def js_neg.simps dbl_add.simps minus_zero add_0_right by (rule round_x2)
  have three: "(3::rat) \<noteq> 0" by simp
  show "normalize_value_double (Fin 3) (Fin 0) (Fin (3 / 2 + 1 / 2 ^ 52)) = Fin (1 / 2 + 1 / 2 ^ 53)"
    unfolding normalize_value_double_def p a dbl_div.simps if_P [OF three] by (rule round_x1_third)
  show "normalize_value_double (Fin 3) (Fin 0) (Fin (3 / 2 + 1 / 2 ^ 51)) = Fin (1 / 2 + 1 / 2 ^ 53)"
    unfolding normalize_value_double_def p b dbl_div.simps if_P [OF three] by (rule round_x2_third)
qed

lemma nan_average_example:
  "normalizeArray_double (replicate 5 (Fin 20)) 0 0 4 5 = replicate 5 NaN"
proof -
  have r: "replicate 5 (Fin 20) = [Fin 20, Fin 20, Fin 20, Fin 20, Fin 20]"
    by (simp add: eval_nat_numeral)
  have s1: "js_slice [Fin 20, Fin 20, Fin 20, Fin 20, Fin 20] 0 0 = []"
    and s2: "js_slice [Fin 20, Fin 20, Fin 20, Fin 20, Fin 20] 4 5 = [Fin 20]"
    by (simp_all add: js_slice_def)
  have m1: "mean_double [] = NaN" by (simp add: mean_double_def)
  have m2: "mean_double [Fin 20] = Fin 20" by (simp add: mean_double_def round_double_20)
  show ?thesis
    unfolding r normalizeArray_double_def Let_def s1 s2 m1 m2
    by (simp add: normalize_value_double_def dbl_sub_def round_double_zero eval_nat_numeral)
qed


text \<open>
  Three inputs on which the statement without these provisos fails.  On the curve
  \<open>[2\<^sup>1\<^sup>0\<^sup>2\<^sup>3, 0, -2\<^sup>1\<^sup>0\<^sup>2\<^sup>3]\<close> with the windows \<open>[0, 1)\<close> and \<open>[2, 3)\<close> the averages are
  \<open>2\<^sup>1\<^sup>0\<^sup>2\<^sup>3\<close> and \<open>-2\<^sup>1\<^sup>0\<^sup>2\<^sup>3\<close>, finite and different, their difference overflows to
  \<open>+\<infinity>\<close>, and the point equal to \<open>preAvg\<close> is sent to NaN, not to one.  With the
  averages \<open>3\<close> and \<open>0\<close> the two adjacent doubles \<open>3/2 + 2\<^sup>-\<^sup>5\<^sup>2\<close> and \<open>3/2 + 2\<^sup>-\<^sup>5\<^sup>1\<close> (each is
  its own rounding) are sent to the same double \<open>1/2 + 2\<^sup>-\<^sup>5\<^sup>3\<close>: the map is not injective.  On a constant curve of
  five points with the windows \<open>[0, 0)\<close> and \<open>[4, 5)\<close> the pre-melt average is NaN, which
  differs from the post-melt average \<open>20\<close>, and the curve, equal to \<open>postAvg\<close> everywhere,
  is sent to NaN everywhere.
\<close>

theorem normalization_fails_in_doubles:
  "normalizeArray_double [Fin (2 ^ 1023), Fin 0, Fin (- (2 ^ 1023))] 0 1 2 3
     = [NaN, Fin 0, Fin 0]
   \<and> map round_double [3 / 2 + 1 / 2 ^ 52, 3 / 2 + 1 / 2 ^ 51]
     = [Fin (3 / 2 + 1 / 2 ^ 52), Fin (3 / 2 + 1 / 2 ^ 51)]
   \<and> map (normalize_value_double (Fin 3) (Fin 0))
         [Fin (3 / 2 + 1 / 2 ^ 52), Fin (3 / 2 + 1 / 2 ^ 51)]
     = [Fin (1 / 2 + 1 / 2 ^ 53), Fin (1 / 2 + 1 / 2 ^ 53)]
   \<and> normalizeArray_double (replicate 5 (Fin 20)) 0 0 4 5 = replicate 5 NaN"
proof (intro conjI)
  show "normalizeArray_double [Fin (2 ^ 1023), Fin 0, Fin (- (2 ^ 1023))] 0 1 2 3
     = [NaN, Fin 0, Fin 0]"
    by (rule overflow_example) (rule refl)
  show "map round_double [3 / 2 + 1 / 2 ^ 52, 3 / 2 + 1 / 2 ^ 51]
     = [Fin (3 / 2 + 1 / 2 ^ 52), Fin (3 / 2 + 1 / 2 ^ 51)]"
    unfolding list.map round_x1 round_x2 ..
  show "map (normalize_value_double (Fin 3) (Fin 0))
         [Fin (3 / 2 + 1 / 2 ^ 52), Fin (3 / 2 + 1 / 2 ^ 51)]
     = [Fin (1 / 2 + 1 / 2 ^ 53), Fin (1 / 2 + 1 / 2 ^ 53)]"
    unfolding list.map not_injective_example ..
  show "normalizeArray_double (replicate 5 (Fin 20)) 0 0 4 5 = replicate 5 NaN"
    by (rule nan_average_example)
qed

section \<open>The degenerate end-to-end scenario\<close>

text \<open>
  C4 (as amended).  On the five-point scenario the pipeline completes: automatic
  detection gives \<open>preStart = 0\<close>, \<open>preEnd = 0\<close>, \<open>postStart = 4\<close>, \<open>postEnd = 5\<close>, the mean of
  the empty pre-melt window is NaN, every normalized value and every value of the
  smoothed, negated derivative is NaN, none is turned into zero, and Tm detection,
  reading the NaN derivative unfiltered, returns the first temperature, \<open>60\<close>.
\<close>

theorem scenario_analysis_value:
  "scenario_analysis =
     (\<lparr> rawData = Some scenario_table,
        processedData = Some
          \<lparr> temperatures = [Fin 60, Fin (121 / 2), Fin 61, Fin (123 / 2), Fin 62],
            samples = [ \<lparr> name = ''S1'',
                          fluorescence = [Fin 100, Fin 100, Fin 80, Fin 20, Fin 20],
                          visible = True,
                          normalized = Some [NaN, NaN, NaN, NaN, NaN],
                          derivative = Some [NaN, NaN, NaN, NaN, NaN],
                          tm = Some (Fin 60), difference = None \<rparr> ],
            regions = Some \<lparr> preStart = 0, preEnd = 0, postStart = 4, postEnd = 5 \<rparr> \<rparr>,
        settings = \<lparr> normalizationMode = ''auto'', smoothingWindow = 5,
                     referenceSample = RefNull \<rparr> \<rparr>,
      Some
          \<lparr> temperatures = [Fin 60, Fin (121 / 2), Fin 61, Fin (123 / 2), Fin 62],
            samples = [ \<lparr> name = ''S1'',
                          fluorescence = [Fin 100, Fin 100, Fin 80, Fin 20, Fin 20],
                          visible = True,
                          normalized = Some [NaN, NaN, NaN, NaN, NaN],
                          derivative = Some [NaN, NaN, NaN, NaN, NaN],
                          tm = Some (Fin 60), difference = None \<rparr> ],
            regions = Some \<lparr> preStart = 0, preEnd = 0, postStart = 4, postEnd = 5 \<rparr> \<rparr>,
      [AnalysisComplete])"
  by code_simp

text \<open>
  The Tm reported on the scenario is a finite number: no comparison with NaN succeeds
  in \<open>findTm\<close>, so the candidate index stays \<open>0\<close>.
\<close>

theorem scenario_tm_finite:
  "map tm (returned_samples scenario_analysis) = [Some (Fin 60)] \<and> is_finite (Fin 60)"
  by code_simp

section \<open>The archive parser\<close>

text \<open>
  The name given to the sample at position \<open>k\<close>: its own name, or \<open>Well_\<close> and its well
  number plus one when it has none, with the 1-based position appended when that
  name has been given before.
\<close>

lemma sample_headers_length [simp]: "length (sample_headers idx ss used) = length ss"
  by (induction ss arbitrary: idx used) (simp_all add: Let_def)

lemma sample_headers_nth:
  "k < length ss \<Longrightarrow>
     sample_headers idx ss used ! k =
       (let name0 = (if sampleName (ss ! k) \<noteq> [] then sampleName (ss ! k)
                     else ''Well_'' @ string_of_nat (wellNumber (ss ! k) + 1))
        in if name0 \<in> used \<union> set (take k (sample_headers idx ss used))
           then name0 @ ''_'' @ string_of_nat (idx + k + 1) else name0)"
proof (induction ss arbitrary: idx used k)
  case Nil
  then show ?case by simp
next
  case (Cons s ss)
  show ?case
  proof (cases k)
    case 0
    then show ?thesis by (simp add: Let_def)
  next
    case (Suc k')
    then have "k' < length ss" using Cons.prems by simp
    from Cons.IH [OF this] show ?thesis
      unfolding Suc by (simp add: Let_def)
  qed
qed

text \<open>
  Two unnamed samples of well \<open>0\<close> are named \<open>Well_1\<close> and \<open>Well_1_2\<close>.
\<close>

lemma unnamed_wells_headers:
  "eds_headers
     [ \<lparr> wellNumber = 0, sampleName = [], detector = ''SNP'', task = ''Target'',
         tmValues = [], sampleTemperatures = [Fin 60], rnValues = [Fin 1],
         deltaRnTemperatures = [], deltaRnValues = [] \<rparr>,
       \<lparr> wellNumber = 0, sampleName = [], detector = ''SNP'', task = ''Target'',
         tmValues = [], sampleTemperatures = [Fin 60], rnValues = [Fin 2],
         deltaRnTemperatures = [], deltaRnValues = [] \<rparr> ]
   = [''Temperature'', ''Well_1'', ''Well_1_2'']"
  by code_simp

text \<open>
  The rows.  When the headers are pairwise distinct and none is \<open>__proto__\<close>, every row
  has one cell for each header, and the cell of a sample holds its Rn value at the row's index, or \<open>null\<close>
  beyond the end of its Rn vector.
\<close>

lemma map_of_foldl_update:
  assumes "''__proto__'' \<notin> fst ` set zs"
  shows "map_of (foldl (\<lambda>row (c, s). set_property c (f s) row) row0 zs)
     = map_of row0 ++ map_of (rev (map (\<lambda>(c, s). (c, f s)) zs))"
  using assms
proof (induction zs arbitrary: row0)
  case Nil
  then show ?case by simp
next
  case (Cons z zs)
  obtain c s where z: "z = (c, s)" by (cases z)
  have c: "c \<noteq> ''__proto__''" and zs: "''__proto__'' \<notin> fst ` set zs"
    using Cons.prems unfolding z by auto
  have step: "set_property c (f s) row0 = AList.update c (f s) row0"
    using c by (simp add: set_property_def)
  show ?case
    unfolding z
    by (simp add: step Cons.IH [OF zs] update_conv' map_add_def fun_eq_iff split: option.splits)
qed

lemma map_of_rev_zip_nth:
  assumes "distinct hs" and "length hs = length vs" and "k < length hs"
  shows "map_of (rev (zip hs vs)) (hs ! k) = Some (vs ! k)"
proof -
  have "distinct (map fst (rev (zip hs vs)))"
    using assms(1,2) by (simp add: rev_map [symmetric])
  moreover have "(hs ! k, vs ! k) \<in> set (rev (zip hs vs))"
    using assms(2,3) by (auto simp: set_zip)
  ultimately show ?thesis by (rule map_of_is_SomeI)
qed

lemma eds_row_cell:
  assumes d: "distinct hdrs" and h0: "hdrs ! 0 = ''Temperature''"
    and l: "length hdrs = Suc (length ss)" and k: "k < length ss"
    and np: "''__proto__'' \<notin> set hdrs"
  shows "map_of (eds_row hdrs ss refTemps i) (hdrs ! Suc k) = Some (rn_cell (ss ! k) i)"
    and "map_of (eds_row hdrs ss refTemps i) ''Temperature'' = Some (Number (refTemps ! i))"
    and "dom (map_of (eds_row hdrs ss refTemps i)) = set hdrs"
proof -
  let ?hs = "drop 1 hdrs"
  let ?vs = "map (\<lambda>s. rn_cell s i) ss"
  have hd: "hdrs = ''Temperature'' # ?hs" using h0 l by (cases hdrs) auto
  have dh: "distinct ?hs" and lh: "length ?hs = length ss" and nt: "''Temperature'' \<notin> set ?hs"
    using d l hd by (simp_all add: distinct_drop) (metis distinct.simps(2))
  have z: "map (\<lambda>(c, s). (c, rn_cell s i)) (zip ?hs ss) = zip ?hs ?vs"
    by (simp add: zip_map2 case_prod_unfold)
  have "''__proto__'' \<notin> set ?hs" using np by (metis in_set_dropD)
  then have pz: "''__proto__'' \<notin> fst ` set (zip ?hs ss)" by (metis in_set_zipE imageE prod.collapse)
  have m: "map_of (eds_row hdrs ss refTemps i)
        = [''Temperature'' \<mapsto> Number (refTemps ! i)] ++ map_of (rev (zip ?hs ?vs))"
    unfolding eds_row_def map_of_foldl_update [OF pz] z by simp
  have "map_of (rev (zip ?hs ?vs)) (?hs ! k) = Some (?vs ! k)"
    by (rule map_of_rev_zip_nth) (use dh lh k in simp_all)
  then show "map_of (eds_row hdrs ss refTemps i) (hdrs ! Suc k) = Some (rn_cell (ss ! k) i)"
    unfolding m using k l by (simp add: map_add_def)
  have mf: "fst ` set (zip ?hs ?vs) = set ?hs"
    using lh by (metis length_map map_fst_zip set_map)
  have "map_of (rev (zip ?hs ?vs)) ''Temperature'' = None"
    using nt mf by (simp add: map_of_eq_None_iff)
  then show "map_of (eds_row hdrs ss refTemps i) ''Temperature'' = Some (Number (refTemps ! i))"
    unfolding m by (simp add: map_add_def)
  have "dom (map_of (rev (zip ?hs ?vs))) = set ?hs"
    using mf by (simp add: dom_map_of_conv_image_fst)
  moreover have "set hdrs = insert ''Temperature'' (set ?hs)"
    by (subst hd) simp
  ultimately show "dom (map_of (eds_row hdrs ss refTemps i)) = set hdrs"
    unfolding m by auto
qed


lemma eds_headers_shape:
  "length (eds_headers ss) = Suc (length ss) \<and> eds_headers ss ! 0 = ''Temperature''"
  by (simp add: eds_headers_def)

lemma formatForHRMAnalyzer_cells:
  assumes out: "formatForHRMAnalyzer ss = Some out"
    and d: "distinct (headers out)" and np: "''__proto__'' \<notin> set (headers out)"
    and i: "i < length (data out)" and k: "k < length ss"
  shows "length (data out) = length (sampleTemperatures (hd ss))
    \<and> dom (map_of (data out ! i)) = set (headers out)
    \<and> map_of (data out ! i) (headers out ! Suc k)
        = Some (if i < length (rnValues (ss ! k)) then Number (rnValues (ss ! k) ! i) else Null)"
proof -
  from out obtain s0 rest where ss: "ss = s0 # rest" by (cases ss) (auto simp: formatForHRMAnalyzer_def)
  have o: "out = \<lparr> filename = ''eds_file'', headers = eds_headers ss,
                    tempHeader = ''Temperature'',
                    data = map (eds_row (eds_headers ss) ss (sampleTemperatures s0))
                             [0 ..< length (sampleTemperatures s0)],
                    sampleCount = length ss \<rparr>"
    using out unfolding ss by (simp add: formatForHRMAnalyzer_def Let_def)
  have h: "headers out = eds_headers ss" and
    dt: "data out = map (eds_row (eds_headers ss) ss (sampleTemperatures s0))
                        [0 ..< length (sampleTemperatures s0)]"
    unfolding o by simp_all
  have il: "i < length (sampleTemperatures s0)" using i dt by simp
  then have row: "data out ! i = eds_row (eds_headers ss) ss (sampleTemperatures s0) i"
    unfolding dt by simp
  have dd: "distinct (eds_headers ss)" using d h by simp
  have pp: "''__proto__'' \<notin> set (eds_headers ss)" using np h by simp
  note shape = eds_headers_shape [of ss]
  have c: "rn_cell (ss ! k) i
        = (if i < length (rnValues (ss ! k)) then Number (rnValues (ss ! k) ! i) else Null)"
    by (simp add: rn_cell_def js_index_def)
  show ?thesis
    unfolding row h
    using eds_row_cell [OF dd conjunct2 [OF shape] conjunct1 [OF shape] k pp,
        of "sampleTemperatures s0" i] c dt ss
    by simp
qed

text \<open>
  C5.  Header names built by the archive parser are meant to be pairwise distinct.
  On three samples named \<open>A\<close>, \<open>A_3\<close>, \<open>A\<close> the third collides with the first and is
  renamed \<open>A_3\<close>, which the second already has: the headers are not distinct.
\<close>

theorem colliding_headers_not_distinct:
  "eds_headers colliding_samples = [''Temperature'', ''A'', ''A_3'', ''A_3'']
   \<and> \<not> distinct (eds_headers colliding_samples)"
  by code_simp

text \<open>
  C10.  A sample whose Rn vector is shorter than the temperature axis is meant to hold
  \<open>null\<close> in the rows beyond it.  On the samples \<open>A\<close>, \<open>A_3\<close>, \<open>A\<close> the second sample has
  one Rn value for two temperatures, and its cell in the second row is the third
  sample's value \<open>6\<close>, written under the header they share; each row has three cells
  for four headers.
\<close>

theorem colliding_rows_overwritten:
  "formatForHRMAnalyzer colliding_samples =
     Some \<lparr> filename = ''eds_file'',
            headers = [''Temperature'', ''A'', ''A_3'', ''A_3''],
            tempHeader = ''Temperature'',
            data = [ [(''Temperature'', Number (Fin 60)), (''A'', Number (Fin 1)),
                      (''A_3'', Number (Fin 5))],
                     [(''Temperature'', Number (Fin 61)), (''A'', Number (Fin 2)),
                      (''A_3'', Number (Fin 6))] ],
            sampleCount = 3 \<rparr>"
  by code_simp

section \<open>The coverage gate\<close>

lemma present_count:
  "length (filter (\<lambda>f. f \<noteq> None) (column_values rows h))
     = length (filter (\<lambda>row. \<not> isNaN (parseFloat (map_of row h))) rows)"
  by (induction rows) (simp_all add: column_values_def Let_def)

lemma coverage_gt_half:
  assumes "temps \<noteq> []"
  shows "js_gt (coverage fluor temps) (Fin (1 / 2))
     \<longleftrightarrow> 1 / 2 < (of_nat (length (filter (\<lambda>f. f \<noteq> None) fluor)) :: rat) / of_nat (length temps)"
  using assms by (simp add: coverage_def)

lemma accepted_names:
  "h \<in> set (map name (accepted (map (extract_column rows temps th) hs)))
     \<longleftrightarrow> h \<in> set hs \<and> h \<noteq> th \<and> js_gt (coverage (column_values rows h) temps) (Fin (1 / 2))"
  by (induction hs) (auto simp: extract_column_def Let_def)

lemma dropped_names:
  "h \<in> set (dropped (map (extract_column rows temps th) hs))
     \<longleftrightarrow> h \<in> set hs \<and> h \<noteq> th \<and> \<not> js_gt (coverage (column_values rows h) temps) (Fin (1 / 2))"
  by (induction hs) (auto simp: extract_column_def Let_def)

text \<open>
  What extraction returns is well formed: it has a sample and a temperature, and every
  fluorescence vector is as long as the temperature axis.
\<close>

lemma length_fill_pass [simp]: "length (fill_pass lastVal vs) = length vs"
  by (induction lastVal vs rule: fill_pass.induct) simp_all

lemma length_fillMissingValues [simp]: "length (fillMissingValues arr) = length arr"
  by (simp add: fillMissingValues_def Let_def)




text \<open>
  C1 (as amended).  After the rows without a temperature are dropped, a column other
  than the temperature column is accepted as a sample if and only if the fraction of
  the remaining rows in which \<open>parseFloat\<close> of its cell is not NaN (a finite number
  or an infinity) is strictly greater than \<open>1/2\<close>; otherwise, at half or less, it is
  in the list of dropped columns of a still successful extraction.
\<close>

theorem coverage_gate:
  assumes rows: "valid_rows raw \<noteq> []" and h: "h \<in> set (headers raw)"
    and ht: "h \<noteq> tempHeader raw"
  defines "present \<equiv>
    length (filter (\<lambda>row. \<not> isNaN (parseFloat (map_of row h))) (valid_rows raw))"
  shows "((\<exists>pd w. extractSamples raw = Inr (pd, w) \<and> h \<in> set (map name (samples pd)))
           \<longleftrightarrow> 1 / 2 < (of_nat present :: rat) / of_nat (length (valid_rows raw)))
       \<and> (\<forall>pd w. extractSamples raw = Inr (pd, w) \<longrightarrow>
             (h \<in> set w \<longleftrightarrow> \<not> 1 / 2 < (of_nat present :: rat) / of_nat (length (valid_rows raw))))"
proof -
  define temps where "temps = map (\<lambda>row. parseFloat (map_of row (tempHeader raw))) (valid_rows raw)"
  define results where "results = map (extract_column (valid_rows raw) temps (tempHeader raw)) (headers raw)"
  have tne: "temps \<noteq> []" and tl: "length temps = length (valid_rows raw)"
    using rows by (simp_all add: temps_def)
  have gate: "js_gt (coverage (column_values (valid_rows raw) h) temps) (Fin (1 / 2))
      \<longleftrightarrow> 1 / 2 < (of_nat present :: rat) / of_nat (length (valid_rows raw))"
    unfolding coverage_gt_half [OF tne] present_count tl present_def ..
  have acc: "h \<in> set (map name (accepted results))
      \<longleftrightarrow> 1 / 2 < (of_nat present :: rat) / of_nat (length (valid_rows raw))"
    unfolding results_def accepted_names using h ht gate by simp
  have drp: "h \<in> set (dropped results)
      \<longleftrightarrow> \<not> 1 / 2 < (of_nat present :: rat) / of_nat (length (valid_rows raw))"
    unfolding results_def dropped_names using h ht gate by simp
  have ex: "extractSamples raw =
      (if accepted results = [] then Inl NoValidSamples
       else Inr (\<lparr> temperatures = temps, samples = accepted results, regions = None \<rparr>,
                 dropped results))"
    using rows by (simp add: extractSamples_def Let_def temps_def results_def)
  show ?thesis
  proof (cases "accepted results = []")
    case True
    then show ?thesis using ex acc by auto
  next
    case False
    then show ?thesis using ex acc drp by auto
  qed
qed

theorem coverage_gate_witness:
  "valid_rows half_table \<noteq> [] \<and> ''H'' \<in> set (headers half_table)
   \<and> ''H'' \<noteq> tempHeader half_table
   \<and> length (valid_rows half_table) = 4
   \<and> length (filter (\<lambda>f. f \<noteq> None) (column_values (valid_rows half_table) ''H'')) = 2
   \<and> length (filter (\<lambda>f. f \<noteq> None) (column_values (valid_rows half_table) ''G'')) = 3
   \<and> extractSamples half_table =
       Inr (\<lparr> temperatures = map Fin [60, 61, 62, 63],
              samples = [ \<lparr> name = ''G'', fluorescence = map Fin [9, 9, 7, 6], visible = True,
                            normalized = None, derivative = None, tm = None,
                            difference = None \<rparr> ],
              regions = None \<rparr>,
            [''H''])"
proof -
  have h1: "valid_rows half_table \<noteq> []" by code_simp
  have h2: "''H'' \<in> set (headers half_table)" by code_simp
  have h3: "''H'' \<noteq> tempHeader half_table" by code_simp
  have c: "length (valid_rows half_table) = 4
   \<and> length (filter (\<lambda>f. f \<noteq> None) (column_values (valid_rows half_table) ''H'')) = 2
   \<and> length (filter (\<lambda>f. f \<noteq> None) (column_values (valid_rows half_table) ''G'')) = 3
   \<and> extractSamples half_table =
       Inr (\<lparr> temperatures = map Fin [60, 61, 62, 63],
              samples = [ \<lparr> name = ''G'', fluorescence = map Fin [9, 9, 7, 6], visible = True,
                            normalized = None, derivative = None, tm = None,
                            difference = None \<rparr> ],
              regions = None \<rparr>,
            [''H''])" by code_simp
  show ?thesis
    using coverage_gate [OF h1 h2 h3] h1 h2 h3 c by blast
qed


text \<open>
  A column of four cells, three of them infinite and one finite: one cell in four is a
  finite number, and the column is accepted.
\<close>

theorem infinite_cells_accepted:
  "extractSamples infinity_table =
     Inr (\<lparr> temperatures = map Fin [60, 61, 62, 63],
            samples = [ \<lparr> name = ''S'', fluorescence = [PInf, PInf, PInf, Fin 1], visible = True,
                          normalized = None, derivative = None, tm = None,
                          difference = None \<rparr> ],
            regions = None \<rparr>,
          [])
   \<and> \<not> 1 / 2 < (of_nat (length (filter is_finite
                  (map to_number (column_values (valid_rows infinity_table) ''S'')))) :: rat)
                / of_nat (length (valid_rows infinity_table))"
  by code_simp

section \<open>Lists of results that may throw\<close>

lemma those_map_nth:
  "those (map f xs) = Some ys \<Longrightarrow>
     length ys = length xs \<and> (\<forall>k < length xs. f (xs ! k) = Some (ys ! k))"
proof (induction xs arbitrary: ys)
  case Nil
  then show ?case by simp
next
  case (Cons x xs)
  from Cons.prems obtain y ys' where fx: "f x = Some y" and t: "those (map f xs) = Some ys'"
    and ys: "ys = y # ys'"
    by (auto split: option.splits)
  from Cons.IH [OF t] have "length ys' = length xs" and "\<forall>k < length xs. f (xs ! k) = Some (ys' ! k)"
    by simp_all
  then show ?case using fx ys by (auto simp: nth_Cons split: nat.splits)
qed


lemma those_map_field:
  assumes "those (map f xs) = Some ys"
    and "\<And>x y. f x = Some y \<Longrightarrow> q y = r x"
  shows "map q ys = map r xs"
proof -
  from those_map_nth [OF assms(1)]
  have l: "length ys = length xs" and n: "\<forall>k < length xs. f (xs ! k) = Some (ys ! k)" by simp_all
  show ?thesis
    by (rule nth_equalityI) (use l n assms(2) in auto)
qed


section \<open>Visibility and analysis do not interfere\<close>

lemma normalize_sample_visible: "visible (normalize_sample r s) = visible s"
  by (simp add: normalize_sample_def)

lemma derive_sample_visible: "derive_sample temps w s = Some s' \<Longrightarrow> visible s' = visible s"
  by (auto simp: derive_sample_def Let_def split: option.splits)

lemma difference_of_visible:
  "difference_of reference refIdx p = Some s' \<Longrightarrow> visible s' = visible (snd p)"
  by (cases p) (auto simp: difference_of_def split: option.splits if_splits)

lemma difference_stage_visible:
  assumes "difference_stage ref ds = Some ds'"
  shows "map visible ds' = map visible ds"
proof -
  have e: "map (visible \<circ> snd) (enumerate 0 ds) = map visible ds"
    by (simp add: map_snd_enumerate flip: map_map)
  have "those (map (difference_of reference refIdx) (enumerate 0 ds)) = Some ds'
          \<Longrightarrow> map visible ds' = map visible ds" for reference refIdx
    using those_map_field [where q = visible and r = "visible \<circ> snd" and ys = ds'
          and f = "difference_of reference refIdx" and xs = "enumerate 0 ds"]
      difference_of_visible e by fastforce
  then show ?thesis
    using assms
    by (auto simp: difference_stage_def split: reference_setting.splits option.splits if_splits)
qed

lemma run_pipeline_SomeE:
  assumes "run_pipeline stg pd = Some pd'"
  obtains regs ds ds' where
    "samples pd \<noteq> []"
    "regs = detectMeltRegions (temperatures pd) (fluorescence (hd (samples pd)))"
    "those (map (derive_sample (temperatures pd) (smoothingWindow stg))
                (map (normalize_sample regs) (samples pd))) = Some ds"
    "difference_stage (referenceSample stg) ds = Some ds'"
    "pd' = pd\<lparr>samples := ds', regions := Some regs\<rparr>"
proof (cases "samples pd")
  case Nil
  then show ?thesis using assms by (simp add: run_pipeline_def)
next
  case (Cons s0 rest)
  define regs where "regs = detectMeltRegions (temperatures pd) (fluorescence (hd (samples pd)))"
  define dsO where "dsO = those (map (derive_sample (temperatures pd) (smoothingWindow stg))
                (map (normalize_sample regs) (samples pd)))"
  have unfold: "run_pipeline stg pd =
      (case dsO of None \<Rightarrow> None
       | Some ds \<Rightarrow>
           (case difference_stage (referenceSample stg) ds of None \<Rightarrow> None
            | Some ds' \<Rightarrow> Some (pd\<lparr>samples := ds', regions := Some regs\<rparr>)))"
    unfolding dsO_def regs_def
    by (simp add: run_pipeline_def Cons Let_def split: option.splits)
  from assms obtain ds where ds: "dsO = Some ds"
    unfolding unfold by (cases dsO) auto
  from assms obtain ds' where ds': "difference_stage (referenceSample stg) ds = Some ds'"
    unfolding unfold ds by (cases "difference_stage (referenceSample stg) ds") auto
  have pd': "pd' = pd\<lparr>samples := ds', regions := Some regs\<rparr>"
    using assms unfolding unfold ds by (simp add: ds')
  have ne: "samples pd \<noteq> []" using Cons by simp
  show ?thesis
    by (rule that [OF ne regs_def ds [unfolded dsO_def] ds' pd'])
qed

lemma run_pipeline_visible:
  assumes "run_pipeline stg pd = Some pd'"
  shows "map visible (samples pd') = map visible (samples pd)"
proof -
  from assms obtain regs ds ds' where
    d: "those (map (derive_sample (temperatures pd) (smoothingWindow stg))
                   (map (normalize_sample regs) (samples pd))) = Some ds"
    and d': "difference_stage (referenceSample stg) ds = Some ds'"
    and pd': "pd' = pd\<lparr>samples := ds', regions := Some regs\<rparr>"
    by (rule run_pipeline_SomeE)
  have "map visible ds = map visible (map (normalize_sample regs) (samples pd))"
    using those_map_field [OF d, where q = visible and r = visible] derive_sample_visible
    by blast
  then have "map visible ds = map visible (samples pd)"
    by (simp add: normalize_sample_visible)
  then show ?thesis using difference_stage_visible [OF d'] pd' by simp
qed

lemma analyze_visible_flags: "visible_flags (fst (analyze patch st)) = visible_flags st"
  by (auto simp: analyze_def visible_flags_def Let_def run_pipeline_visible split: option.splits)

lemma sample_numbers_visible [simp]: "sample_numbers (s\<lparr>visible := v\<rparr>) = sample_numbers s"
  by (simp add: sample_numbers_def)

lemma map_sample_numbers_update:
  "k < length ss \<Longrightarrow>
     map sample_numbers (ss[k := (ss ! k)\<lparr>visible := v\<rparr>]) = map sample_numbers ss"
  by (simp add: map_update list_update_same_conv)

lemma toggle_numbers:
  "rawData (fst (toggleSampleVisibility i st)) = rawData st
   \<and> settings (fst (toggleSampleVisibility i st)) = settings st
   \<and> map_option processed_numbers (processedData (fst (toggleSampleVisibility i st)))
       = map_option processed_numbers (processedData st)
   \<and> set (snd (toggleSampleVisibility i st)) \<subseteq> {SampleVisibilityChanged}"
  by (auto simp: toggleSampleVisibility_def processed_numbers_def js_index_def
        map_sample_numbers_update split: option.splits if_splits)

lemma set_one_numbers:
  "rawData (fst (setSampleVisibility i v st)) = rawData st
   \<and> settings (fst (setSampleVisibility i v st)) = settings st
   \<and> map_option processed_numbers (processedData (fst (setSampleVisibility i v st)))
       = map_option processed_numbers (processedData st)
   \<and> set (snd (setSampleVisibility i v st)) \<subseteq> {SampleVisibilityChanged}"
  by (auto simp: setSampleVisibility_def processed_numbers_def js_index_def
        map_sample_numbers_update split: option.splits if_splits)

lemma set_all_numbers:
  "rawData (fst (setAllSamplesVisibility v st)) = rawData st
   \<and> settings (fst (setAllSamplesVisibility v st)) = settings st
   \<and> map_option processed_numbers (processedData (fst (setAllSamplesVisibility v st)))
       = map_option processed_numbers (processedData st)
   \<and> set (snd (setAllSamplesVisibility v st)) \<subseteq> {SampleVisibilityChanged}"
  by (auto simp: setAllSamplesVisibility_def processed_numbers_def split: option.splits)

text \<open>
  C8.  Toggling one sample's visibility, setting one sample's visibility and setting
  all samples' visibility leave the raw data, the settings, the temperature axis, the
  regions and every sample's name, fluorescence, normalized curve, derivative, Tm and
  difference as they were, and dispatch nothing but the visibility event, on which no
  analysis runs; conversely \<open>analyze\<close> leaves every sample's \<open>visible\<close> flag as it was.
\<close>

theorem visibility_frame:
  "(rawData (fst (toggleSampleVisibility i st)) = rawData st
    \<and> settings (fst (toggleSampleVisibility i st)) = settings st
    \<and> map_option processed_numbers (processedData (fst (toggleSampleVisibility i st)))
        = map_option processed_numbers (processedData st)
    \<and> set (snd (toggleSampleVisibility i st)) \<subseteq> {SampleVisibilityChanged})
   \<and> (rawData (fst (setSampleVisibility i v st)) = rawData st
    \<and> settings (fst (setSampleVisibility i v st)) = settings st
    \<and> map_option processed_numbers (processedData (fst (setSampleVisibility i v st)))
        = map_option processed_numbers (processedData st)
    \<and> set (snd (setSampleVisibility i v st)) \<subseteq> {SampleVisibilityChanged})
   \<and> (rawData (fst (setAllSamplesVisibility v st)) = rawData st
    \<and> settings (fst (setAllSamplesVisibility v st)) = settings st
    \<and> map_option processed_numbers (processedData (fst (setAllSamplesVisibility v st)))
        = map_option processed_numbers (processedData st)
    \<and> set (snd (setAllSamplesVisibility v st)) \<subseteq> {SampleVisibilityChanged})
   \<and> visible_flags (fst (analyze patch st)) = visible_flags st"
  using toggle_numbers [of i st] set_one_numbers [of i v st] set_all_numbers [of v st]
    analyze_visible_flags [of patch st]
  by blast

theorem visibility_frame_witness:
  "map_option processed_numbers
       (processedData (fst (toggleSampleVisibility 0 (fst scenario_analysis))))
     = map_option processed_numbers (processedData (fst scenario_analysis))
   \<and> visible_flags (fst (toggleSampleVisibility 0 (fst scenario_analysis))) = Some [False]
   \<and> visible_flags (fst (setAllSamplesVisibility True
         (fst (toggleSampleVisibility 0 (fst scenario_analysis))))) = Some [True]
   \<and> visible_flags (fst (analyze no_patch
         (fst (toggleSampleVisibility 0 (fst scenario_analysis))))) = Some [False]"
proof -
  have 1: "visible_flags (fst (toggleSampleVisibility 0 (fst scenario_analysis))) = Some [False]"
    by code_simp
  have 2: "visible_flags (fst (setAllSamplesVisibility True
         (fst (toggleSampleVisibility 0 (fst scenario_analysis))))) = Some [True]"
    by code_simp
  show ?thesis
    using visibility_frame [of 0 "fst scenario_analysis" True no_patch]
      visibility_frame [of 0 "fst (toggleSampleVisibility 0 (fst scenario_analysis))" True no_patch]
      1 2
    by simp
qed

section \<open>The difference stage\<close>

lemma length_normalizeArray [simp]: "length (normalizeArray arr a b c d) = length arr"
  by (simp add: normalizeArray_def Let_def)





lemma difference_stage_pass:
  assumes "ref = RefNull \<or> ref = RefValue None
     \<or> (\<exists>r. ref = RefValue (Some r) \<and> \<not> (0 \<le> r \<and> r < int (length ds)))"
  shows "difference_stage ref ds = Some ds"
  using assms by (auto simp: difference_stage_def)
















end
